theory Spec2Isabelle
  imports Complex_Main "HOL-Library.Log_Nat"
begin

section \<open>Python numbers\<close>

text \<open>
  A Python \<open>float\<close> is an IEEE 754 binary64 number, and every finite one is a rational.
  A float value is modelled as the rational it denotes, and each float operation as the
  exact operation followed by \<open>binary64\<close>, the rounding to the nearest binary64 number
  with ties to the even significand (53 bits, least exponent \<open>-1074\<close>). Overflow to
  infinity does not occur for the magnitudes of this program (percentages, row counts
  and seconds) and is not modelled.
\<close>

definition pow2 :: "int \<Rightarrow> rat" where
  "pow2 e = (if 0 \<le> e then 2 ^ nat e else 1 / 2 ^ nat (- e))"

definition round_half_even :: "rat \<Rightarrow> int" where
  "round_half_even x =
     (let n = \<lfloor>x\<rfloor>; d = x - of_int n
      in if d < 1 / 2 then n
         else if 1 / 2 < d then n + 1
         else if even n then n else n + 1)"

text \<open>\<open>ilog2 x\<close> is the exponent \<open>k\<close> with \<open>2^k \<le> x < 2^(k+1)\<close>, for \<open>x > 0\<close>.\<close>

definition ilog2 :: "rat \<Rightarrow> int" where
  "ilog2 x =
     (case quotient_of x of
        (a, b) \<Rightarrow> let k = bitlen a - bitlen b in if pow2 k \<le> x then k else k - 1)"

definition binary64 :: "rat \<Rightarrow> rat" where
  "binary64 x =
     (if x = 0 then 0
      else let e = max (ilog2 \<bar>x\<bar> - 52) (- 1074)
           in sgn x * of_int (round_half_even (\<bar>x\<bar> / pow2 e)) * pow2 e)"

text \<open>\<open>a / b\<close> on two integers (true division, correctly rounded); \<open>b\<close> is not zero.\<close>

definition py_truediv :: "int \<Rightarrow> int \<Rightarrow> rat" where
  "py_truediv a b = binary64 (of_int a / of_int b)"

text \<open>\<open>x * n\<close> and \<open>n * x\<close> for a float \<open>x\<close> and an integer \<open>n\<close>: the integer is converted first.\<close>

definition py_mul_int :: "rat \<Rightarrow> int \<Rightarrow> rat" where
  "py_mul_int x n = binary64 (x * binary64 (of_int n))"

text \<open>\<open>int(x)\<close> truncates towards zero.\<close>

definition py_int :: "rat \<Rightarrow> int" where
  "py_int x = (if 0 \<le> x then \<lfloor>x\<rfloor> else \<lceil>x\<rceil>)"

text \<open>
  \<open>round(x, 2)\<close>: the exact value of \<open>x\<close> rounded to two decimal places, ties to even,
  then the nearest float of that decimal.
\<close>

definition py_round2 :: "rat \<Rightarrow> rat" where
  "py_round2 x = binary64 (of_int (round_half_even (x * 100)) / 100)"

section \<open>Workflow runner (app/services/workflow\_service.py)\<close>

subsection \<open>Data model\<close>

text \<open>
  Python exceptions are values. Only the exception classes that the modelled code can
  raise are listed; the argument is the message.
\<close>

datatype py_exception =
    NameError string
  | ValueError string
  | TypeError string
  | FileNotFoundError string

text \<open>\<open>str(e)\<close>.\<close>

fun str_exception :: "py_exception \<Rightarrow> string" where
  "str_exception (NameError m) = m"
| "str_exception (ValueError m) = m"
| "str_exception (TypeError m) = m"
| "str_exception (FileNotFoundError m) = m"

text \<open>
  A stored workflow step is the dictionary produced by \<open>WorkflowStep.dict()\<close>
  (app/schemas/document.py): the four keys are always present, so
  \<open>step_data.get("step_type")\<close> is the stored string and
  \<open>step_data.get("config", {})\<close> is the stored dictionary.
\<close>

type_synonym config = "(string \<times> string) list"

record step_data =
  step_id :: string
  step_type :: string
  config :: config
  order :: int

text \<open>
  The \<open>Workflow\<close> row of app/models/document.py, restricted to the columns the runner
  reads or writes. The counters are Python integers.
\<close>

record workflow =
  name :: string
  steps :: "step_data list"
  total_runs :: int
  successful_runs :: int
  failed_runs :: int

text \<open>
  What an observer of one execution can see, in order: a step handler being entered
  (named by its step type) and a \<open>self.db.commit()\<close>, which carries the row as it is
  written.
\<close>

datatype event =
    Invoked string
  | Committed int workflow

text \<open>
  The database session: the persisted \<open>workflows\<close> table, keyed by primary key, and
  the log of events so far. \<open>query(...).first()\<close> is a lookup in the table and
  \<open>commit\<close> stores the in-memory row; both are taken to succeed, so the only
  exceptions in a run are those of the step handlers.
\<close>

record session =
  workflows :: "int \<rightharpoonup> workflow"
  trace :: "event list"

definition commit :: "int \<Rightarrow> workflow \<Rightarrow> session \<Rightarrow> session" where
  "commit workflow_id wflow db =
     db\<lparr>workflows := (workflows db)(workflow_id \<mapsto> wflow),
        trace := trace db @ [Committed workflow_id wflow]\<rparr>"

subsection \<open>Step handlers\<close>

text \<open>
  The four handlers are methods of the service object, looked up on \<open>self\<close> at each
  call. A handler either returns a boolean or raises. The record below is one choice of
  the four methods.
\<close>

record handlers =
  text_extraction_step :: "config \<Rightarrow> py_exception + bool"
  ai_analysis_step :: "config \<Rightarrow> py_exception + bool"
  categorization_step :: "config \<Rightarrow> py_exception + bool"
  notification_step :: "config \<Rightarrow> py_exception + bool"

text \<open>
  The handlers as the repository defines them. Each starts with
  \<open>await asyncio.sleep(...)\<close>, and workflow\_service.py imports \<open>Session\<close>, \<open>List\<close>,
  \<open>Optional\<close>, \<open>datetime\<close>, \<open>Workflow\<close> and three schema classes only: the global
  name \<open>asyncio\<close> is unbound, so evaluating \<open>asyncio.sleep\<close> raises \<open>NameError\<close>
  before the \<open>return True\<close> is reached.
\<close>

definition execute_text_extraction_step :: "config \<Rightarrow> py_exception + bool" where
  "execute_text_extraction_step cfg = Inl (NameError ''name 'asyncio' is not defined'')"

definition execute_ai_analysis_step :: "config \<Rightarrow> py_exception + bool" where
  "execute_ai_analysis_step cfg = Inl (NameError ''name 'asyncio' is not defined'')"

definition execute_categorization_step :: "config \<Rightarrow> py_exception + bool" where
  "execute_categorization_step cfg = Inl (NameError ''name 'asyncio' is not defined'')"

definition execute_notification_step :: "config \<Rightarrow> py_exception + bool" where
  "execute_notification_step cfg = Inl (NameError ''name 'asyncio' is not defined'')"

definition service_handlers :: handlers where
  "service_handlers =
     \<lparr>text_extraction_step = execute_text_extraction_step,
      ai_analysis_step = execute_ai_analysis_step,
      categorization_step = execute_categorization_step,
      notification_step = execute_notification_step\<rparr>"

text \<open>
  Handlers that do what their docstrings say (simulate the work, return \<open>True\<close>), for
  comparison.
\<close>

definition simulated_handlers :: handlers where
  "simulated_handlers =
     \<lparr>text_extraction_step = (\<lambda>cfg. Inr True),
      ai_analysis_step = (\<lambda>cfg. Inr True),
      categorization_step = (\<lambda>cfg. Inr True),
      notification_step = (\<lambda>cfg. Inr True)\<rparr>"

text \<open>
  \<open>try: ... except Exception: return False\<close> around a handler call: a raise becomes
  \<open>False\<close>, a returned value is passed on.
\<close>

definition caught :: "py_exception + bool \<Rightarrow> bool" where
  "caught r = (case r of Inl e \<Rightarrow> False | Inr b \<Rightarrow> b)"

text \<open>
  \<open>_execute_step\<close>: the result and the handlers entered (at most one). An unknown
  step type enters no handler.
\<close>

definition execute_step :: "handlers \<Rightarrow> string \<Rightarrow> config \<Rightarrow> bool \<times> event list" where
  "execute_step h stype cfg =
     (if stype = ''text_extraction'' then
        (caught (text_extraction_step h cfg), [Invoked ''text_extraction''])
      else if stype = ''ai_analysis'' then
        (caught (ai_analysis_step h cfg), [Invoked ''ai_analysis''])
      else if stype = ''categorization'' then
        (caught (categorization_step h cfg), [Invoked ''categorization''])
      else if stype = ''notification'' then
        (caught (notification_step h cfg), [Invoked ''notification''])
      else (False, []))"

text \<open>The two components of \<open>_execute_step\<close> on a stored step.\<close>

definition step_ok :: "handlers \<Rightarrow> step_data \<Rightarrow> bool" where
  "step_ok h sd = fst (execute_step h (step_type sd) (config sd))"

definition step_events :: "handlers \<Rightarrow> step_data \<Rightarrow> event list" where
  "step_events h sd = snd (execute_step h (step_type sd) (config sd))"

definition known_step_types :: "string list" where
  "known_step_types = [''text_extraction'', ''ai_analysis'', ''categorization'', ''notification'']"

fun is_commit :: "event \<Rightarrow> bool" where
  "is_commit (Committed i w) = True"
| "is_commit (Invoked t) = False"

subsection \<open>execute\_workflow\<close>

text \<open>
  The \<open>for step_data in workflow.steps\<close> loop together with what follows it. \<open>wflow\<close> is
  the in-memory row (already carrying the incremented \<open>total_runs\<close>), the list is what
  is left to iterate. A failing step increments \<open>failed_runs\<close>, commits and returns;
  when the list is exhausted \<open>successful_runs\<close> is incremented and committed.
\<close>

fun run_steps :: "handlers \<Rightarrow> int \<Rightarrow> workflow \<Rightarrow> step_data list \<Rightarrow> session \<Rightarrow> session" where
  "run_steps h workflow_id wflow [] db =
     commit workflow_id (wflow\<lparr>successful_runs := successful_runs wflow + 1\<rparr>) db"
| "run_steps h workflow_id wflow (sd # rest) db =
     (case execute_step h (step_type sd) (config sd) of
        (success, evs) \<Rightarrow>
          if \<not> success then
            commit workflow_id (wflow\<lparr>failed_runs := failed_runs wflow + 1\<rparr>)
              (db\<lparr>trace := trace db @ evs\<rparr>)
          else run_steps h workflow_id wflow rest (db\<lparr>trace := trace db @ evs\<rparr>))"

text \<open>
  \<open>execute_workflow\<close>. An absent id returns at once. Otherwise \<open>total_runs\<close> is
  incremented on the in-memory row and the loop starts; there is no commit between the
  two. Nothing inside the \<open>try\<close> raises (\<open>_execute_step\<close> catches every exception of
  a handler), so the outer \<open>except\<close> has no branch here.
\<close>

definition execute_workflow :: "handlers \<Rightarrow> int \<Rightarrow> session \<Rightarrow> session" where
  "execute_workflow h workflow_id db =
     (case workflows db workflow_id of
        None \<Rightarrow> db
      | Some wflow \<Rightarrow>
          run_steps h workflow_id (wflow\<lparr>total_runs := total_runs wflow + 1\<rparr>)
            (steps wflow) db)"

text \<open>Several execution attempts in a row, each with its own handlers.\<close>

fun execute_attempts :: "handlers list \<Rightarrow> int \<Rightarrow> session \<Rightarrow> session" where
  "execute_attempts [] workflow_id db = db"
| "execute_attempts (h # hs) workflow_id db =
     execute_attempts hs workflow_id (execute_workflow h workflow_id db)"

subsection \<open>A concrete workflow\<close>

definition example_steps :: "step_data list" where
  "example_steps =
     [\<lparr>step_id = ''s1'', step_type = ''text_extraction'', config = [], order = 1\<rparr>,
      \<lparr>step_id = ''s2'', step_type = ''notification'', config = [], order = 2\<rparr>]"

definition example_session :: "step_data list \<Rightarrow> session" where
  "example_session ss =
     \<lparr>workflows = [1 \<mapsto> \<lparr>name = ''w'', steps = ss, total_runs = 0,
                          successful_runs = 0, failed_runs = 0\<rparr>],
      trace = []\<rparr>"

definition failing_first_steps :: "config \<Rightarrow> config \<Rightarrow> step_data list" where
  "failing_first_steps c1 c2 =
     [\<lparr>step_id = ''s1'', step_type = ''ai_analysis'', config = c1, order = 1\<rparr>,
      \<lparr>step_id = ''s2'', step_type = ''notification'', config = c2, order = 2\<rparr>]"

definition unknown_step_steps :: "step_data list" where
  "unknown_step_steps =
     [\<lparr>step_id = ''s1'', step_type = ''text_extraction'', config = [], order = 1\<rparr>,
      \<lparr>step_id = ''s2'', step_type = ''translation'', config = [], order = 2\<rparr>,
      \<lparr>step_id = ''s3'', step_type = ''notification'', config = [], order = 3\<rparr>]"

definition single_step :: "string \<Rightarrow> step_data list" where
  "single_step t = [\<lparr>step_id = ''s1'', step_type = t, config = [], order = 1\<rparr>]"

section \<open>Job runner (app/services/processing\_service.py)\<close>

subsection \<open>Data model\<close>

text \<open>
  A point in time is a number of microseconds since the epoch; the difference of two
  is a \<open>timedelta\<close>, a number of microseconds, and \<open>total_seconds()\<close> divides it by
  \<open>10**6\<close> as a float.
\<close>

type_synonym timestamp = int

definition total_seconds :: "int \<Rightarrow> rat" where
  "total_seconds us = py_truediv us 1000000"

text \<open>
  A Python \<open>datetime\<close> is naive or timezone-aware. \<open>datetime.utcnow()\<close> is naive. The
  columns \<open>started_at\<close> and \<open>completed_at\<close> are \<open>DateTime(timezone=True)\<close> on the
  PostgreSQL engine of app/core/config.py, so a value read back from the store is
  timezone-aware.
\<close>

datatype py_datetime = Naive timestamp | Aware timestamp

text \<open>
  \<open>a - b\<close> on two attributes that may be \<open>None\<close>: subtracting with \<open>None\<close> raises
  \<open>TypeError\<close>, and so does subtracting a naive and an aware datetime.
\<close>

definition datetime_sub :: "py_datetime option \<Rightarrow> py_datetime option \<Rightarrow> py_exception + int" where
  "datetime_sub a b =
     (case (a, b) of
        (Some (Naive x), Some (Naive y)) \<Rightarrow> Inr (x - y)
      | (Some (Aware x), Some (Aware y)) \<Rightarrow> Inr (x - y)
      | (Some (Naive x), Some (Aware y)) \<Rightarrow>
          Inl (TypeError ''can't subtract offset-naive and offset-aware datetimes'')
      | (Some (Aware x), Some (Naive y)) \<Rightarrow>
          Inl (TypeError ''can't subtract offset-naive and offset-aware datetimes'')
      | _ \<Rightarrow> Inl (TypeError ''unsupported operand type(s) for -''))"

datatype JobStatus = PENDING | RUNNING | COMPLETED | FAILED

text \<open>
  The \<open>ProcessingJob\<close> row (app/models/document.py) with the columns the service reads
  or writes. The JSON payloads \<open>input_data\<close> and \<open>output_data\<close> are left out: the
  handlers store a fixed mock payload after their loop, which cannot raise and which
  nothing below reads.
\<close>

record processing_job =
  job_id :: string
  job_type :: string
  status :: JobStatus
  progress :: rat
  error_message :: "string option"
  started_at :: "timestamp option"
  completed_at :: "timestamp option"
  duration_seconds :: "rat option"
  document_id :: "int option"
  created_at :: timestamp

text \<open>
  The session of the job runner: \<open>jobs\<close> are the rows as the session holds them, keyed
  by primary key, and \<open>commits\<close> lists every persisted state in order, one entry per
  \<open>self.db.commit()\<close>. The store does not fail and returns the values that were
  written. A commit expires the objects of the session (the \<open>sessionmaker\<close> of
  app/core/database.py keeps that default), so an attribute read after a commit is read
  back from the store: the timestamps of a row are points in time, and a timestamp
  read from a row is a timezone-aware datetime.
\<close>

record job_db =
  jobs :: "int \<rightharpoonup> processing_job"
  commits :: "(int \<times> processing_job) list"

definition job_commit :: "int \<Rightarrow> processing_job \<Rightarrow> job_db \<Rightarrow> job_db" where
  "job_commit i job db =
     db\<lparr>jobs := (jobs db)(i \<mapsto> job), commits := commits db @ [(i, job)]\<rparr>"

text \<open>The persisted states of one job, oldest first.\<close>

definition history :: "int \<Rightarrow> job_db \<Rightarrow> processing_job list" where
  "history i db = map snd (filter (\<lambda>c. fst c = i) (commits db))"

subsection \<open>create\_job and cancel\_job\<close>

text \<open>
  \<open>create_job\<close>: the primary key \<open>new_id\<close>, the uuid and \<open>created_at\<close> come from the
  environment; \<open>progress\<close> takes its column default \<open>0.0\<close> and the optional columns
  are \<open>NULL\<close>.
\<close>

definition create_job :: "int \<Rightarrow> string \<Rightarrow> timestamp \<Rightarrow> string \<Rightarrow> int option \<Rightarrow> job_db \<Rightarrow> job_db" where
  "create_job new_id uuid now jtype doc_id db =
     job_commit new_id
       \<lparr>job_id = uuid, job_type = jtype, status = PENDING, progress = 0,
        error_message = None, started_at = None, completed_at = None,
        duration_seconds = None, document_id = doc_id, created_at = now\<rparr> db"

definition cancel_job :: "timestamp \<Rightarrow> int \<Rightarrow> job_db \<Rightarrow> bool \<times> job_db" where
  "cancel_job now i db =
     (case jobs db i of
        None \<Rightarrow> (False, db)
      | Some job \<Rightarrow>
          if status job \<in> set [PENDING, RUNNING] then
            (True,
             job_commit i
               (job\<lparr>status := FAILED,
                    error_message := Some ''Job cancelled by user'',
                    completed_at := Some now\<rparr>) db)
          else (False, db))"

subsection \<open>The type-specific handlers\<close>

text \<open>
  Each handler is a \<open>for i in range(n)\<close> loop that sets \<open>job.progress\<close> and commits.
  \<open>progress_loop\<close> is that loop for a progress formula \<open>f\<close> and the indices still to
  visit; it returns the in-memory row and the session.
\<close>

fun progress_loop ::
  "int \<Rightarrow> (nat \<Rightarrow> rat) \<Rightarrow> nat list \<Rightarrow> processing_job \<Rightarrow> job_db \<Rightarrow> processing_job \<times> job_db" where
  "progress_loop jid f [] job db = (job, db)"
| "progress_loop jid f (i # rest) job db =
     progress_loop jid f rest (job\<lparr>progress := f i\<rparr>)
       (job_commit jid (job\<lparr>progress := f i\<rparr>) db)"

definition process_text_extraction :: "int \<Rightarrow> processing_job \<Rightarrow> job_db \<Rightarrow> processing_job \<times> job_db" where
  "process_text_extraction jid job db =
     progress_loop jid (\<lambda>i. of_nat ((i + 1) * 20)) [0..<5] job db"

definition process_ai_analysis :: "int \<Rightarrow> processing_job \<Rightarrow> job_db \<Rightarrow> processing_job \<times> job_db" where
  "process_ai_analysis jid job db =
     progress_loop jid (\<lambda>i. of_nat ((i + 1) * 10)) [0..<10] job db"

definition process_categorization :: "int \<Rightarrow> processing_job \<Rightarrow> job_db \<Rightarrow> processing_job \<times> job_db" where
  "process_categorization jid job db =
     progress_loop jid (\<lambda>i. py_mul_int (binary64 (3333 / 100)) (int (i + 1))) [0..<3] job db"

definition process_workflow :: "int \<Rightarrow> processing_job \<Rightarrow> job_db \<Rightarrow> processing_job \<times> job_db" where
  "process_workflow jid job db =
     progress_loop jid (\<lambda>i. py_mul_int (binary64 (25 / 2)) (int (i + 1))) [0..<8] job db"

text \<open>The \<open>if job.job_type == ...\<close> chain; the last branch raises.\<close>

definition dispatch_job :: "int \<Rightarrow> processing_job \<Rightarrow> job_db \<Rightarrow> py_exception + processing_job \<times> job_db" where
  "dispatch_job jid job db =
     (if job_type job = ''text_extraction'' then Inr (process_text_extraction jid job db)
      else if job_type job = ''ai_analysis'' then Inr (process_ai_analysis jid job db)
      else if job_type job = ''categorization'' then Inr (process_categorization jid job db)
      else if job_type job = ''workflow'' then Inr (process_workflow jid job db)
      else Inl (ValueError (''Unknown job type: '' @ job_type job)))"

subsection \<open>\_process\_job\_async\<close>

text \<open>
  The \<open>except Exception as e\<close> block: it queries the job again and, when there is one,
  marks it failed. \<open>now\<close> is what \<open>datetime.utcnow()\<close> returns there. The duration is
  computed under \<open>if job.started_at\<close>, from \<open>job.completed_at\<close>, the naive value just
  assigned, and \<open>job.started_at\<close>, read from the row. The result is \<open>Inl\<close> when the
  block itself raises; nothing is committed then.
\<close>

definition mark_failed :: "timestamp \<Rightarrow> int \<Rightarrow> py_exception \<Rightarrow> job_db \<Rightarrow> py_exception + job_db" where
  "mark_failed now i e db =
     (case jobs db i of
        None \<Rightarrow> Inr db
      | Some job0 \<Rightarrow>
          (let job = job0\<lparr>status := FAILED,
                          error_message := Some (str_exception e),
                          completed_at := Some now\<rparr>
           in if started_at job \<noteq> None then
                (case datetime_sub (Some (Naive now)) (map_option Aware (started_at job)) of
                   Inl e' \<Rightarrow> Inl e'
                 | Inr d \<Rightarrow>
                     Inr (job_commit i
                            (job\<lparr>duration_seconds := Some (total_seconds d)\<rparr>) db))
              else Inr (job_commit i job db)))"

text \<open>
  An exception of the \<open>try\<close> body goes to the \<open>except\<close> block, which sees the rows as
  the session holds them (\<open>held\<close>). When the block raises, the exception leaves
  \<open>_process_job_async\<close> and the changes made since the last commit are never written:
  what remains is the persisted state (\<open>persisted\<close>).
\<close>

definition except_block ::
  "timestamp \<Rightarrow> int \<Rightarrow> py_exception \<Rightarrow> job_db \<Rightarrow> job_db \<Rightarrow> py_exception option \<times> job_db" where
  "except_block now i e held persisted =
     (case mark_failed now i e held of
        Inl e' \<Rightarrow> (Some e', persisted)
      | Inr db' \<Rightarrow> (None, db'))"

text \<open>
  \<open>_process_job_async\<close>. \<open>t1\<close>, \<open>t2\<close> and \<open>t3\<close> are the values of the three
  \<open>datetime.utcnow()\<close> calls (on starting, on completing, in the \<open>except\<close> block), as far
  as they are reached. The result is the exception that leaves the function, if any,
  and the session. On completing, \<open>job.completed_at\<close> is the naive value just assigned
  and \<open>job.started_at\<close> is read from the row, which the handler's commits have expired.
\<close>

definition process_job_async ::
  "timestamp \<Rightarrow> timestamp \<Rightarrow> timestamp \<Rightarrow> int \<Rightarrow> job_db \<Rightarrow> py_exception option \<times> job_db" where
  "process_job_async t1 t2 t3 i db =
     (case jobs db i of
        None \<Rightarrow> (None, db)
      | Some job0 \<Rightarrow>
          (let job1 = job0\<lparr>status := RUNNING, started_at := Some t1, progress := 0\<rparr>;
               db1 = job_commit i job1 db
           in (case dispatch_job i job1 db1 of
                 Inl e \<Rightarrow> except_block t3 i e db1 db1
               | Inr (job2, db2) \<Rightarrow>
                   (let job3 = job2\<lparr>status := COMPLETED, progress := 100,
                                     completed_at := Some t2\<rparr>
                    in (case datetime_sub (Some (Naive t2))
                               (map_option Aware (started_at job3)) of
                          Inl e \<Rightarrow>
                            except_block t3 i e (db2\<lparr>jobs := (jobs db2)(i \<mapsto> job3)\<rparr>) db2
                        | Inr d \<Rightarrow>
                            (None,
                             job_commit i
                               (job3\<lparr>duration_seconds := Some (total_seconds d)\<rparr>)
                               db2))))))"

text \<open>
  The life of one job: \<open>create_job\<close> schedules \<open>_process_job_async\<close> once, as a
  background task; cancel requests may arrive before the task starts and after it has
  ended (their times are given as two lists).
\<close>

fun cancel_requests :: "timestamp list \<Rightarrow> int \<Rightarrow> job_db \<Rightarrow> job_db" where
  "cancel_requests [] i db = db"
| "cancel_requests (t # ts) i db = cancel_requests ts i (snd (cancel_job t i db))"

definition job_life ::
  "int \<Rightarrow> string \<Rightarrow> timestamp \<Rightarrow> string \<Rightarrow> int option \<Rightarrow> timestamp list \<Rightarrow>
   timestamp \<Rightarrow> timestamp \<Rightarrow> timestamp \<Rightarrow> timestamp list \<Rightarrow> job_db \<Rightarrow>
   py_exception option \<times> job_db" where
  "job_life new_id uuid t0 jtype doc_id before t1 t2 t3 after db =
     (case process_job_async t1 t2 t3 new_id
             (cancel_requests before new_id (create_job new_id uuid t0 jtype doc_id db)) of
        (raised, db') \<Rightarrow> (raised, cancel_requests after new_id db'))"

subsection \<open>Names used in the properties\<close>

text \<open>The job types with a handler.\<close>

definition known_job_types :: "string list" where
  "known_job_types = [''text_extraction'', ''ai_analysis'', ''categorization'', ''workflow'']"

definition empty_job_db :: job_db where
  "empty_job_db = \<lparr>jobs = Map.empty, commits = []\<rparr>"

definition example_job :: "JobStatus \<Rightarrow> processing_job" where
  "example_job s =
     \<lparr>job_id = ''3f2c'', job_type = ''text_extraction'', status = s, progress = 0,
      error_message = None, started_at = None, completed_at = None,
      duration_seconds = None, document_id = Some 7, created_at = 1000\<rparr>"

definition example_job_db :: "JobStatus \<Rightarrow> job_db" where
  "example_job_db s = \<lparr>jobs = [1 \<mapsto> example_job s], commits = [(1, example_job s)]\<rparr>"

subsection \<open>get\_system\_status\<close>

text \<open>
  The returned dictionary. \<open>average_duration_seconds\<close> is left out: it is a float
  \<open>sum\<close>, whose rounding depends on the interpreter's summation algorithm.
\<close>

record system_status =
  total_jobs :: nat
  pending_jobs :: nat
  running_jobs :: nat
  completed_jobs :: nat
  failed_jobs :: nat
  success_rate :: rat
  recent_jobs_24h :: nat
  system_health :: string

definition count_status :: "JobStatus \<Rightarrow> processing_job list \<Rightarrow> nat" where
  "count_status s rows = length (filter (\<lambda>j. status j = s) rows)"

text \<open>
  \<open>get_system_status\<close> on the rows of the \<open>processing_jobs\<close> table; \<open>now\<close> is
  \<open>datetime.utcnow()\<close>. \<open>total_jobs * 0.1\<close> is a float product and the comparison of
  the integer \<open>failed_jobs\<close> with it is exact.
\<close>

definition get_system_status :: "timestamp \<Rightarrow> processing_job list \<Rightarrow> system_status" where
  "get_system_status now rows =
     (let n = length rows;
          pending = count_status PENDING rows;
          running = count_status RUNNING rows;
          completed = count_status COMPLETED rows;
          failed = count_status FAILED rows;
          rate = (if n > 0
                  then py_mul_int (py_truediv (int completed) (int n)) 100
                  else 0);
          recent_cutoff = now - 24 * 3600 * 1000000;
          recent = length (filter (\<lambda>j. recent_cutoff \<le> created_at j) rows)
      in \<lparr>total_jobs = n,
          pending_jobs = pending,
          running_jobs = running,
          completed_jobs = completed,
          failed_jobs = failed,
          success_rate = py_round2 rate,
          recent_jobs_24h = recent,
          system_health =
            (if of_nat failed < py_mul_int (binary64 (1 / 10)) (int n)
             then ''healthy'' else ''degraded'')\<rparr>)"

text \<open>Job tables: \<open>k\<close> completed jobs and one failed job; one completed job of three.\<close>

definition example_rows :: "nat \<Rightarrow> processing_job list" where
  "example_rows k = replicate k (example_job COMPLETED) @ [example_job FAILED]"

definition one_of_three :: "processing_job list" where
  "one_of_three = [example_job COMPLETED, example_job PENDING, example_job PENDING]"

section \<open>Batch task (app/tasks/document\_tasks.py)\<close>

text \<open>The \<open>Document\<close> columns the task reads or writes.\<close>

record document =
  file_path :: string
  extracted_text :: "string option"
  doc_status :: string
  processing_progress :: rat
  doc_error_message :: "string option"

text \<open>
  \<open>TextExtractionService.extract_text\<close> raises \<open>FileNotFoundError\<close> for a path that
  does not exist and returns a string for every other path (its inner \<open>try\<close> turns any
  parser error into an error text). The file system is the map from each existing path
  to that string.
\<close>

definition extract_text :: "(string \<rightharpoonup> string) \<Rightarrow> string \<Rightarrow> py_exception + string" where
  "extract_text fs path =
     (case fs path of
        None \<Rightarrow> Inl (FileNotFoundError (''File not found: '' @ path))
      | Some text \<Rightarrow> Inr text)"

text \<open>One entry of \<open>results\<close> and one \<open>update_state\<close> call.\<close>

record batch_entry =
  entry_document_id :: int
  entry_status :: string
  text_length :: "nat option"
  entry_error :: "string option"

record progress_update =
  reported_progress :: int
  position :: nat
  of_total :: nat
  current_document :: int

text \<open>
  What the task does that can be seen from outside, in order: an \<open>update_state\<close> call
  and a \<open>results.append\<close>.
\<close>

datatype batch_event =
    UpdateState progress_update
  | ResultAppended batch_entry

record batch_state =
  documents :: "int \<rightharpoonup> document"
  results :: "batch_entry list"
  events :: "batch_event list"

text \<open>\<open>int((i / total_documents) * 100)\<close>, inside the loop, where the total is positive.\<close>

definition batch_progress :: "nat \<Rightarrow> nat \<Rightarrow> int" where
  "batch_progress i n = py_int (py_mul_int (py_truediv (int i) (int n)) 100)"

text \<open>\<open>results.append(entry)\<close>.\<close>

definition append_result :: "batch_entry \<Rightarrow> batch_state \<Rightarrow> batch_state" where
  "append_result entry st =
     st\<lparr>results := results st @ [entry], events := events st @ [ResultAppended entry]\<rparr>"

text \<open>
  The \<open>for i, document_id in enumerate(document_ids)\<close> loop with its inner
  \<open>try/except\<close>; \<open>n\<close> is \<open>total_documents\<close>. In the \<open>except\<close> branch \<open>document\<close> is
  the row just queried, since only \<open>extract_text\<close> raises.
\<close>

fun batch_loop :: "(string \<rightharpoonup> string) \<Rightarrow> nat \<Rightarrow> nat \<Rightarrow> int list \<Rightarrow> batch_state \<Rightarrow> batch_state" where
  "batch_loop fs n i [] st = st"
| "batch_loop fs n i (doc_id # rest) st =
     (let st1 = st\<lparr>events := events st @
                  [UpdateState
                     \<lparr>reported_progress = batch_progress i n, position = i + 1,
                      of_total = n, current_document = doc_id\<rparr>]\<rparr>
      in case documents st1 doc_id of
           None \<Rightarrow>
             batch_loop fs n (i + 1) rest
               (append_result
                  \<lparr>entry_document_id = doc_id, entry_status = ''not_found'',
                   text_length = None, entry_error = None\<rparr> st1)
         | Some doc \<Rightarrow>
             (case extract_text fs (file_path doc) of
                Inr text \<Rightarrow>
                  batch_loop fs n (i + 1) rest
                    (append_result
                       \<lparr>entry_document_id = doc_id, entry_status = ''completed'',
                        text_length = Some (length text), entry_error = None\<rparr>
                       (st1\<lparr>documents := (documents st1)(doc_id \<mapsto>
                              doc\<lparr>extracted_text := Some text, doc_status := ''completed'',
                                  processing_progress := 100\<rparr>)\<rparr>))
              | Inl e \<Rightarrow>
                  batch_loop fs n (i + 1) rest
                    (append_result
                       \<lparr>entry_document_id = doc_id, entry_status = ''failed'',
                        text_length = None, entry_error = Some (str_exception e)\<rparr>
                       (st1\<lparr>documents := (documents st1)(doc_id \<mapsto>
                              doc\<lparr>doc_status := ''failed'',
                                  doc_error_message := Some (str_exception e)\<rparr>)\<rparr>))))"

record batch_return =
  total_documents :: nat
  returned_results :: "batch_entry list"
  returned_status :: string

text \<open>
  \<open>process_document_batch\<close>: the returned dictionary, and the state after the final
  commit (the updated documents and the events of the run).
\<close>

definition process_document_batch ::
  "(string \<rightharpoonup> string) \<Rightarrow> int list \<Rightarrow> (int \<rightharpoonup> document) \<Rightarrow> batch_return \<times> batch_state" where
  "process_document_batch fs document_ids docs =
     (let st = batch_loop fs (length document_ids) 0 document_ids
                 \<lparr>documents = docs, results = [], events = []\<rparr>
      in (\<lparr>total_documents = length document_ids,
           returned_results = results st,
           returned_status = ''completed''\<rparr>, st))"

subsection \<open>Names used in the properties of the batch task\<close>

text \<open>
  What the loop body appends for one id, given the documents: the three exits of the
  body (not found, extracted, extraction raised) side by side.
\<close>

definition outcome :: "(string \<rightharpoonup> string) \<Rightarrow> (int \<rightharpoonup> document) \<Rightarrow> int \<Rightarrow> batch_entry" where
  "outcome fs docs doc_id =
     (case docs doc_id of
        None \<Rightarrow>
          \<lparr>entry_document_id = doc_id, entry_status = ''not_found'',
           text_length = None, entry_error = None\<rparr>
      | Some doc \<Rightarrow>
          (case extract_text fs (file_path doc) of
             Inr text \<Rightarrow>
               \<lparr>entry_document_id = doc_id, entry_status = ''completed'',
                text_length = Some (length text), entry_error = None\<rparr>
           | Inl e \<Rightarrow>
               \<lparr>entry_document_id = doc_id, entry_status = ''failed'',
                text_length = None, entry_error = Some (str_exception e)\<rparr>))"

text \<open>The two events of one iteration: the progress report, then the appended entry.\<close>

definition item_events :: "(string \<rightharpoonup> string) \<Rightarrow> (int \<rightharpoonup> document) \<Rightarrow> nat \<Rightarrow> nat \<times> int \<Rightarrow> batch_event list" where
  "item_events fs docs n item =
     [UpdateState
        \<lparr>reported_progress = batch_progress (fst item) n, position = fst item + 1,
         of_total = n, current_document = snd item\<rparr>,
      ResultAppended (outcome fs docs (snd item))]"

text \<open>The progress values reported, in order.\<close>

fun progress_reports :: "batch_event list \<Rightarrow> int list" where
  "progress_reports [] = []"
| "progress_reports (UpdateState u # es) = reported_progress u # progress_reports es"
| "progress_reports (ResultAppended e # es) = progress_reports es"

text \<open>Two stored documents, ids 1 and 3, whose files exist.\<close>

definition example_document :: "string \<Rightarrow> document" where
  "example_document path =
     \<lparr>file_path = path, extracted_text = None, doc_status = ''uploaded'',
      processing_progress = 0, doc_error_message = None\<rparr>"

definition example_documents :: "int \<rightharpoonup> document" where
  "example_documents =
     [1 \<mapsto> example_document ''uploads/a.txt'', 3 \<mapsto> example_document ''uploads/c.pdf'']"

definition example_files :: "string \<rightharpoonup> string" where
  "example_files = [''uploads/a.txt'' \<mapsto> ''alpha'', ''uploads/c.pdf'' \<mapsto> ''gamma delta'']"

section \<open>Properties of the float model\<close>

text \<open>
  \<open>binary64\<close> never moves a value across a representable number: a representable
  number below \<open>x\<close> stays below the rounding of \<open>x\<close>, and the rounding of an \<open>x\<close> less
  than half a unit in the last place above a representable number is at most that
  number. Representable numbers are written \<open>m * 2^e\<close> with a 53-bit significand \<open>m\<close>.
\<close>

lemma pow2_powi: "pow2 e = 2 powi e"
  by (simp add: pow2_def power_int_def power_one_over inverse_eq_divide)

lemma pow2_pos [simp]: "0 < pow2 e"
  by (simp add: pow2_powi)

lemma pow2_add: "pow2 (a + b) = pow2 a * pow2 b"
  by (simp add: pow2_powi power_int_add)

lemma pow2_mono: "a \<le> b \<Longrightarrow> pow2 a \<le> pow2 b"
  by (simp add: pow2_powi power_int_increasing)

lemma pow2_strict_mono: "a < b \<Longrightarrow> pow2 a < pow2 b"
  by (simp add: pow2_powi power_int_strict_increasing)

lemma pow2_less_cancel: "pow2 a < pow2 b \<Longrightarrow> a < b"
  using pow2_mono [of b a] by (cases "a < b") auto

lemma pow2_nat: "pow2 (int n) = 2 ^ n"
  by (simp add: pow2_def)

lemma ilog2_bounds:
  assumes "0 < x"
  shows "pow2 (ilog2 x) \<le> x \<and> x < pow2 (ilog2 x + 1)"
proof -
  obtain a b where q: "quotient_of x = (a, b)"
    by (cases "quotient_of x")
  then have b: "0 < b" and x: "x = of_int a / of_int b"
    by (simp_all add: quotient_of_denom_pos quotient_of_div)
  with assms have a: "0 < a"
    by (simp add: zero_less_divide_iff)
  define la where "la = bitlen a"
  define lb where "lb = bitlen b"
  have la: "0 < la" and lb: "0 < lb"
    using a b bitlen_nonneg [of a] bitlen_nonneg [of b]
      bitlen_eq_zero_iff [of a] bitlen_eq_zero_iff [of b]
    by (auto simp: la_def lb_def order_less_le)
  from bitlen_bounds [OF a] have "2 ^ nat (la - 1) \<le> a" and "a < 2 ^ nat la"
    by (simp_all add: la_def)
  then have "(of_int (2 ^ nat (la - 1)) :: rat) \<le> of_int a"
    and "(of_int a :: rat) < of_int (2 ^ nat la)"
    by (simp_all only: of_int_le_iff of_int_less_iff)
  then have a1: "pow2 (la - 1) \<le> of_int a" and a2: "of_int a < pow2 la"
    using la by (simp_all add: pow2_def)
  from bitlen_bounds [OF b] have "2 ^ nat (lb - 1) \<le> b" and "b < 2 ^ nat lb"
    by (simp_all add: lb_def)
  then have "(of_int (2 ^ nat (lb - 1)) :: rat) \<le> of_int b"
    and "(of_int b :: rat) < of_int (2 ^ nat lb)"
    by (simp_all only: of_int_le_iff of_int_less_iff)
  then have b1: "pow2 (lb - 1) \<le> of_int b" and b2: "of_int b < pow2 lb"
    using lb by (simp_all add: pow2_def)
  have bpos: "(0 :: rat) < of_int b" using b by simp
  define k where "k = la - lb"
  have up: "x < pow2 (k + 1)"
  proof -
    have "of_int a < pow2 (k + 1) * pow2 (lb - 1)"
      using a2 by (simp add: pow2_add [symmetric] k_def)
    also have "\<dots> \<le> pow2 (k + 1) * of_int b"
      using b1 by (simp add: mult_left_mono order_less_imp_le)
    finally show ?thesis
      using bpos by (simp add: x pos_divide_less_eq)
  qed
  have low: "pow2 (k - 1) \<le> x"
  proof -
    have "pow2 (k - 1) * of_int b \<le> pow2 (k - 1) * pow2 lb"
      using b2 by (simp add: mult_left_mono order_less_imp_le)
    also have "\<dots> = pow2 (la - 1)"
      by (simp add: pow2_add [symmetric] k_def)
    also have "\<dots> \<le> of_int a" by (rule a1)
    finally show ?thesis
      using bpos by (simp add: x pos_le_divide_eq)
  qed
  have i: "ilog2 x = (if pow2 k \<le> x then k else k - 1)"
    by (simp add: ilog2_def q k_def la_def lb_def Let_def)
  show ?thesis
  proof (cases "pow2 k \<le> x")
    case True
    with i up show ?thesis by simp
  next
    case False
    with i low show ?thesis by simp
  qed
qed

lemma round_half_even_ge: "of_int m \<le> z \<Longrightarrow> m \<le> round_half_even z"
proof -
  assume "of_int m \<le> z"
  then have "m \<le> \<lfloor>z\<rfloor>" by (simp add: le_floor_iff)
  then show ?thesis by (simp add: round_half_even_def Let_def)
qed

lemma round_half_even_le:
  assumes "z < of_int m + 1 / 2"
  shows "round_half_even z \<le> m"
proof -
  have "z < of_int (m + 1)" using assms by simp
  then have "\<lfloor>z\<rfloor> < m + 1" by (simp only: floor_less_iff)
  then have fl: "\<lfloor>z\<rfloor> \<le> m" by simp
  show ?thesis
  proof (cases "\<lfloor>z\<rfloor> = m")
    case True
    with assms have "z - of_int \<lfloor>z\<rfloor> < 1 / 2" by simp
    with True show ?thesis by (simp add: round_half_even_def Let_def)
  next
    case False
    with fl have "\<lfloor>z\<rfloor> + 1 \<le> m" by simp
    then show ?thesis using fl by (simp add: round_half_even_def Let_def)
  qed
qed


lemma binary64_pos_unfold:
  "0 < x \<Longrightarrow>
   binary64 x =
     of_int (round_half_even (x / pow2 (max (ilog2 x - 52) (- 1074)))) *
       pow2 (max (ilog2 x - 52) (- 1074))"
  by (simp add: binary64_def Let_def)

lemma binary64_ge:
  assumes m: "2 ^ 52 \<le> m" "m < 2 ^ 53" and e: "- 1074 \<le> e"
    and x: "of_int m * pow2 e \<le> x"
  shows "of_int m * pow2 e \<le> binary64 x"
proof -
  define k where "k = ilog2 x"
  define E where "E = max (k - 52) (- 1074)"
  have mr: "(2 ^ 52 :: rat) \<le> of_int m" and mr': "(of_int m :: rat) < 2 ^ 53"
    using m by (simp_all add: of_int_le_numeral_power_cancel_iff
        of_int_less_numeral_power_cancel_iff numeral_power_le_of_int_cancel_iff)
  have y0: "pow2 (e + 52) \<le> of_int m * pow2 e"
    using mr by (simp add: pow2_add pow2_nat [of 52, simplified] mult.commute)
  then have xpos: "0 < x"
    using x pow2_pos [of "e + 52"] by linarith
  from ilog2_bounds [OF xpos] have kb: "pow2 k \<le> x" "x < pow2 (k + 1)"
    by (simp_all add: k_def)
  have "pow2 (e + 52) < pow2 (k + 1)"
    using y0 x kb(2) by linarith
  then have ke: "e \<le> k - 52"
    using pow2_less_cancel [of "e + 52" "k + 1"] by simp
  then have E: "E = k - 52"
    using e by (simp add: E_def)
  have b: "binary64 x = of_int (round_half_even (x / pow2 E)) * pow2 E"
    using binary64_pos_unfold [OF xpos] by (simp add: E_def k_def)
  show ?thesis
  proof (cases "E = e")
    case True
    have "of_int m \<le> x / pow2 e"
      using x by (simp add: pos_le_divide_eq)
    then have "m \<le> round_half_even (x / pow2 e)"
      by (rule round_half_even_ge)
    then have "(of_int m :: rat) \<le> of_int (round_half_even (x / pow2 e))"
      by (simp only: of_int_le_iff)
    then show ?thesis
      using True by (simp add: b mult_right_mono order_less_imp_le)
  next
    case False
    with ke E have lt: "e + 1 \<le> E" by simp
    have "pow2 52 * pow2 E = pow2 k"
      by (simp add: E pow2_add [symmetric])
    then have "of_int (2 ^ 52) \<le> x / pow2 E"
      using kb(1) by (simp add: pos_le_divide_eq pow2_nat [of 52, simplified])
    then have "2 ^ 52 \<le> round_half_even (x / pow2 E)"
      by (rule round_half_even_ge)
    then have "(of_int (2 ^ 52) :: rat) \<le> of_int (round_half_even (x / pow2 E))"
      by (simp only: of_int_le_iff)
    then have "2 ^ 52 * pow2 E \<le> binary64 x"
      by (simp add: b mult_right_mono order_less_imp_le)
    moreover have "of_int m * pow2 e \<le> 2 ^ 53 * pow2 e"
      using mr' by (simp add: mult_right_mono order_less_imp_le)
    moreover have "(2 ^ 53 :: rat) * pow2 e = 2 ^ 52 * pow2 (e + 1)"
      by (simp add: pow2_add [of e 1] pow2_nat [of 1, simplified])
    moreover have "(2 ^ 52 :: rat) * pow2 (e + 1) \<le> 2 ^ 52 * pow2 E"
      using pow2_mono [OF lt] by simp
    ultimately show ?thesis by linarith
  qed
qed

lemma binary64_le:
  assumes m: "2 ^ 52 \<le> m" "m < 2 ^ 53" and e: "- 1074 \<le> e"
    and xpos: "0 < x" and x: "x < (of_int m + 1 / 2) * pow2 e"
  shows "binary64 x \<le> of_int m * pow2 e"
proof -
  define k where "k = ilog2 x"
  define E where "E = max (k - 52) (- 1074)"
  have mr: "(2 ^ 52 :: rat) \<le> of_int m" and mr': "(of_int m :: rat) + 1 \<le> 2 ^ 53"
  proof -
    show "(2 ^ 52 :: rat) \<le> of_int m"
      using m by (simp add: numeral_power_le_of_int_cancel_iff)
    from m have "m + 1 \<le> 2 ^ 53" by simp
    then have "(of_int (m + 1) :: rat) \<le> of_int (2 ^ 53)"
      by (simp only: of_int_le_iff)
    then show "(of_int m :: rat) + 1 \<le> 2 ^ 53" by simp
  qed
  from ilog2_bounds [OF xpos] have kb: "pow2 k \<le> x" "x < pow2 (k + 1)"
    by (simp_all add: k_def)
  have "(of_int m + 1 / 2) * pow2 e \<le> 2 ^ 53 * pow2 e"
    using mr' by (intro mult_right_mono) (simp_all add: order_less_imp_le)
  also have "\<dots> = pow2 (e + 53)"
    by (simp add: pow2_add pow2_nat [of 53, simplified] mult.commute)
  finally have "pow2 k < pow2 (e + 53)"
    using kb(1) x by linarith
  then have ke: "k - 52 \<le> e"
    using pow2_less_cancel [of k "e + 53"] by simp
  then have Ee: "E \<le> e" and Ek: "k - 52 \<le> E"
    using e by (simp_all add: E_def)
  have b: "binary64 x = of_int (round_half_even (x / pow2 E)) * pow2 E"
    using binary64_pos_unfold [OF xpos] by (simp add: E_def k_def)
  show ?thesis
  proof (cases "E = e")
    case True
    have "x / pow2 e < of_int m + 1 / 2"
      using x by (simp add: pos_divide_less_eq)
    then have "round_half_even (x / pow2 e) \<le> m"
      by (rule round_half_even_le)
    then have "(of_int (round_half_even (x / pow2 e)) :: rat) \<le> of_int m"
      by (simp only: of_int_le_iff)
    then show ?thesis
      using True by (simp add: b mult_right_mono order_less_imp_le)
  next
    case False
    with Ee have lt: "E + 1 \<le> e" by simp
    have "pow2 (k + 1) \<le> pow2 (E + 53)"
      using Ek by (intro pow2_mono) simp
    also have "\<dots> = 2 ^ 53 * pow2 E"
      by (simp add: pow2_add pow2_nat [of 53, simplified] mult.commute)
    finally have xE: "x < 2 ^ 53 * pow2 E"
      using kb(2) by linarith
    define z where "z = x / pow2 E"
    have "z < 2 ^ 53"
      using xE by (simp add: z_def pos_divide_less_eq)
    then have "z < of_int (2 ^ 53) + 1 / 2"
      by simp
    then have "round_half_even z \<le> 2 ^ 53"
      by (rule round_half_even_le)
    then have "(of_int (round_half_even z) :: rat) \<le> of_int (2 ^ 53)"
      by (simp only: of_int_le_iff)
    then have "binary64 x \<le> 2 ^ 53 * pow2 E"
      by (simp add: b z_def [symmetric] mult_right_mono order_less_imp_le)
    moreover have "(2 ^ 53 :: rat) * pow2 E = 2 ^ 52 * pow2 (E + 1)"
      by (simp add: pow2_add [of E 1] pow2_nat [of 1, simplified])
    moreover have "(2 ^ 52 :: rat) * pow2 (E + 1) \<le> 2 ^ 52 * pow2 e"
      using pow2_mono [OF lt] by simp
    moreover have "(2 ^ 52 :: rat) * pow2 e \<le> of_int m * pow2 e"
      using mr by (simp add: mult_right_mono order_less_imp_le)
    ultimately show ?thesis by linarith
  qed
qed


lemma normalise_significand:
  assumes g: "1 \<le> g" "g < 2 ^ 53" and j: "- 1000 \<le> j"
  shows "\<exists>m e. 2 ^ 52 \<le> m \<and> m < 2 ^ 53 \<and> - 1074 \<le> e \<and>
           (of_int g :: rat) * pow2 j = of_int m * pow2 e"
proof -
  define k where "k = ilog2 (of_int g)"
  have gpos: "(0 :: rat) < of_int g" using g by simp
  from ilog2_bounds [OF gpos] have kb: "pow2 k \<le> of_int g" "of_int g < pow2 (k + 1)"
    by (simp_all add: k_def)
  have g1: "(1 :: rat) \<le> of_int g" using g by simp
  have g2: "(of_int g :: rat) < pow2 53"
  proof -
    from g have "(of_int g :: rat) < of_int (2 ^ 53)" by (simp only: of_int_less_iff)
    then show ?thesis by (simp add: pow2_nat [of 53, simplified])
  qed
  have "pow2 0 < pow2 (k + 1)"
    using g1 kb(2) by (simp add: pow2_def)
  then have k0: "0 \<le> k"
    using pow2_less_cancel [of 0 "k + 1"] by simp
  have "pow2 k < pow2 53"
    using kb(1) g2 by linarith
  then have k52: "k \<le> 52"
    using pow2_less_cancel [of k 53] by simp
  define m where "m = g * 2 ^ nat (52 - k)"
  define e where "e = j + k - 52"
  have mr: "(of_int m :: rat) = of_int g * pow2 (52 - k)"
    using k52 by (simp add: m_def pow2_def)
  have "pow2 52 = pow2 k * pow2 (52 - k)"
    by (simp add: pow2_add [symmetric])
  also have "\<dots> \<le> of_int g * pow2 (52 - k)"
    using kb(1) by (simp add: mult_right_mono order_less_imp_le)
  finally have "(of_int (2 ^ 52) :: rat) \<le> of_int m"
    by (simp add: mr pow2_nat [of 52, simplified])
  then have m1: "2 ^ 52 \<le> m"
    by (simp only: of_int_le_iff)
  have "of_int g * pow2 (52 - k) < pow2 (k + 1) * pow2 (52 - k)"
    using kb(2) by (simp add: mult_strict_right_mono)
  also have "\<dots> = pow2 53"
    by (simp add: pow2_add [symmetric])
  finally have "(of_int m :: rat) < of_int (2 ^ 53)"
    by (simp add: mr pow2_nat [of 53, simplified])
  then have m2: "m < 2 ^ 53"
    by (simp only: of_int_less_iff)
  have e1: "- 1074 \<le> e"
    using j k0 by (simp add: e_def)
  have "of_int m * pow2 e = of_int g * (pow2 (52 - k) * pow2 e)"
    by (simp add: mr)
  also have "pow2 (52 - k) * pow2 e = pow2 j"
    by (simp add: pow2_add [symmetric] e_def)
  finally have "(of_int g :: rat) * pow2 j = of_int m * pow2 e"
    by simp
  with m1 m2 e1 show ?thesis by blast
qed

lemma binary64_exact:
  assumes "2 ^ 52 \<le> m" "m < 2 ^ 53" "- 1074 \<le> e"
  shows "binary64 (of_int m * pow2 e) = of_int m * pow2 e"
proof -
  let ?y = "(of_int m :: rat) * pow2 e"
  have "(0 :: rat) < of_int m"
    using assms(1) by simp
  then have pos: "0 < ?y"
    by (simp add: zero_less_mult_iff)
  have "?y < (of_int m + 1 / 2) * pow2 e"
    by (simp add: mult_strict_right_mono)
  from binary64_le [OF assms pos this] binary64_ge [OF assms order_refl]
  show ?thesis by simp
qed

lemma binary64_of_nat:
  assumes "n < 2 ^ 53"
  shows "binary64 (of_int (int n)) = of_int (int n)"
proof (cases "n = 0")
  case True
  then show ?thesis by (simp add: binary64_def)
next
  case False
  then have "1 \<le> int n" by simp
  moreover from assms have "int n < 2 ^ 53"
    by (simp add: of_nat_less_numeral_power_cancel_iff)
  ultimately obtain m e where "2 ^ 52 \<le> m" "m < 2 ^ 53" "- 1074 \<le> e"
    and eq: "(of_int (int n) :: rat) * pow2 0 = of_int m * pow2 e"
    using normalise_significand [of "int n" 0] by auto
  from binary64_exact [OF this(1-3)] eq show ?thesis
    by (simp add: pow2_def)
qed

lemma binary64_tenth: "binary64 (1 / 10) = 3602879701896397 / 36028797018963968"
  by code_simp

lemma tenth_product_threshold:
  fixes f n :: nat
  assumes fn: "f \<le> n" and n: "n < 2 ^ 48"
  shows "(of_nat f :: rat) < py_mul_int (binary64 (1 / 10)) (int n) \<longleftrightarrow> 10 * f < n"
proof -
  define c where "c = (3602879701896397 / 36028797018963968 :: rat)"
  define x where "x = c * of_nat n"
  have n53: "n < 2 ^ 53"
    using n by (rule less_le_trans) simp
  have prod: "py_mul_int (binary64 (1 / 10)) (int n) = binary64 x"
    using binary64_of_nat [OF n53] by (simp add: py_mul_int_def binary64_tenth x_def c_def)
  show ?thesis
  proof (cases "10 * f < n")
    case True
    then have "10 * f + 1 \<le> n" by simp
    then have "(of_nat (10 * f + 1) :: rat) \<le> of_nat n"
      by (simp only: of_nat_le_iff)
    then have nf: "10 * (of_nat f :: rat) + 1 \<le> of_nat n"
      by simp
    have xy: "(of_nat f :: rat) + 1 / 16 \<le> x"
      using nf by (simp add: x_def c_def)
    have "f < 2 ^ 48"
      using fn n by simp
    then have "16 * f + 1 < 16 * 2 ^ 48" by simp
    then have "int (16 * f + 1) < 2 ^ 53"
      by (simp add: of_nat_less_numeral_power_cancel_iff)
    then have "1 \<le> int (16 * f + 1)" and "int (16 * f + 1) < 2 ^ 53"
      by simp_all
    from normalise_significand [OF this, of "- 4"]
    obtain m e where me: "2 ^ 52 \<le> m" "m < 2 ^ 53" "- 1074 \<le> e"
      and eq: "(of_int (int (16 * f + 1)) :: rat) * pow2 (- 4) = of_int m * pow2 e"
      by auto
    have y: "(of_nat f :: rat) + 1 / 16 = of_int m * pow2 e"
      using eq by (simp add: pow2_def field_simps)
    from binary64_ge [OF me, of x] xy y
    have "(of_nat f :: rat) + 1 / 16 \<le> binary64 x"
      by simp
    then have "(of_nat f :: rat) < binary64 x"
      by simp
    with True prod show ?thesis by simp
  next
    case False
    then have le: "n \<le> 10 * f" by simp
    have "\<not> (of_nat f :: rat) < binary64 x"
    proof (cases "n = 0")
      case True
      then show ?thesis by (simp add: x_def binary64_def)
    next
      case n0: False
      with le have f1: "1 \<le> int f" by simp
      have "f < 2 ^ 53"
        using fn n53 by simp
      then have f2: "int f < 2 ^ 53"
        by (simp add: of_nat_less_numeral_power_cancel_iff)
      from normalise_significand [OF f1 f2, of 0]
      obtain m e where me: "2 ^ 52 \<le> m" "m < 2 ^ 53" "- 1074 \<le> e"
        and eq: "(of_int (int f) :: rat) * pow2 0 = of_int m * pow2 e"
        by auto
      have fy: "(of_nat f :: rat) = of_int m * pow2 e"
        using eq by (simp add: pow2_def)
      have xpos: "0 < x"
        using n0 by (simp add: x_def c_def)
      from le have "(of_nat n :: rat) \<le> of_nat (10 * f)"
        by (simp only: of_nat_le_iff)
      then have "x \<le> c * (10 * of_nat f)"
        by (simp add: x_def c_def)
      also have "\<dots> = of_nat f + of_nat f / 2 ^ 54"
        by (simp add: c_def field_simps)
      finally have x1: "x \<le> of_nat f + of_nat f / 2 ^ 54" .
      define y where "y = (of_int m :: rat) * pow2 e"
      define p where "p = pow2 e"
      have "(of_int m :: rat) < of_int (2 ^ 53)"
        using me(2) by (simp only: of_int_less_iff)
      then have "(of_int m :: rat) * pow2 e < 2 ^ 53 * pow2 e"
        by (simp add: mult_strict_right_mono)
      then have yp: "y < 2 ^ 53 * p"
        by (simp add: y_def p_def)
      have "x \<le> y + y / 2 ^ 54"
        using x1 by (simp add: fy y_def)
      with yp have "x < y + 1 / 2 * p"
        by simp
      then have "x < (of_int m + 1 / 2) * pow2 e"
        by (simp add: y_def p_def distrib_right)
      from binary64_le [OF me xpos this] show ?thesis
        by (simp add: fy)
    qed
    with False prod show ?thesis by simp
  qed
qed

section \<open>Properties of the workflow runner\<close>

subsection \<open>The step loop\<close>

lemma run_steps_row:
  "\<exists>w'. workflows (run_steps h wid w ss db) = (workflows db)(wid \<mapsto> w') \<and>
        name w' = name w \<and> steps w' = steps w \<and> total_runs w' = total_runs w \<and>
        ((successful_runs w' = successful_runs w + 1 \<and> failed_runs w' = failed_runs w) \<or>
         (successful_runs w' = successful_runs w \<and> failed_runs w' = failed_runs w + 1))"
proof (induction ss arbitrary: db)
  case Nil
  show ?case
    by (rule exI [of _ "w\<lparr>successful_runs := successful_runs w + 1\<rparr>"])
      (simp add: commit_def)
next
  case (Cons sd rest)
  obtain ok evs where e: "execute_step h (step_type sd) (config sd) = (ok, evs)"
    by (cases "execute_step h (step_type sd) (config sd)")
  show ?case
  proof (cases ok)
    case True
    with e Cons.IH [of "db\<lparr>trace := trace db @ evs\<rparr>"] show ?thesis by simp
  next
    case False
    with e show ?thesis
      by (intro exI [of _ "w\<lparr>failed_runs := failed_runs w + 1\<rparr>"])
        (simp add: commit_def)
  qed
qed

lemma run_steps_all_ok:
  "\<forall>s \<in> set ss. step_ok h s \<Longrightarrow>
   run_steps h wid w ss db =
     commit wid (w\<lparr>successful_runs := successful_runs w + 1\<rparr>)
       (db\<lparr>trace := trace db @ concat (map (step_events h) ss)\<rparr>)"
proof (induction ss arbitrary: db)
  case Nil
  show ?case by simp
next
  case (Cons sd rest)
  obtain ok evs where e: "execute_step h (step_type sd) (config sd) = (ok, evs)"
    by (cases "execute_step h (step_type sd) (config sd)")
  from Cons.prems e have ok: "ok" and rest: "\<forall>s \<in> set rest. step_ok h s"
    by (simp_all add: step_ok_def)
  from e have ev: "step_events h sd = evs"
    by (simp add: step_events_def)
  show ?case
    using e ok ev Cons.IH [OF rest, of "db\<lparr>trace := trace db @ evs\<rparr>"] by simp
qed

lemma run_steps_first_failure:
  "\<forall>p \<in> set pre. step_ok h p \<Longrightarrow> \<not> step_ok h s \<Longrightarrow>
   run_steps h wid w (pre @ s # post) db =
     commit wid (w\<lparr>failed_runs := failed_runs w + 1\<rparr>)
       (db\<lparr>trace := trace db @ concat (map (step_events h) (pre @ [s]))\<rparr>)"
proof (induction pre arbitrary: db)
  case Nil
  obtain ok evs where e: "execute_step h (step_type s) (config s) = (ok, evs)"
    by (cases "execute_step h (step_type s) (config s)")
  from Nil.prems e have "\<not> ok" and "step_events h s = evs"
    by (simp_all add: step_ok_def step_events_def)
  with e show ?case by simp
next
  case (Cons p pre)
  obtain ok evs where e: "execute_step h (step_type p) (config p) = (ok, evs)"
    by (cases "execute_step h (step_type p) (config p)")
  from Cons.prems e have ok: "ok" and rest: "\<forall>q \<in> set pre. step_ok h q"
    by (simp_all add: step_ok_def)
  from e have ev: "step_events h p = evs"
    by (simp add: step_events_def)
  show ?case
    using e ok ev Cons.IH [OF rest Cons.prems(2), of "db\<lparr>trace := trace db @ evs\<rparr>"]
    by simp
qed

lemma step_events_known:
  "step_events h sd =
     (if step_type sd \<in> set known_step_types then [Invoked (step_type sd)] else [])"
  by (simp add: step_events_def execute_step_def known_step_types_def)

lemma step_events_no_commit: "filter is_commit (step_events h sd) = []"
  by (simp add: step_events_known)

lemma concat_step_events_no_commit:
  "filter is_commit (concat (map (step_events h) ss)) = []"
  by (induction ss) (simp_all add: step_events_no_commit)

lemma first_failure_split:
  "\<not> (\<forall>s \<in> set ss. P s) \<Longrightarrow>
   \<exists>pre s post. ss = pre @ s # post \<and> (\<forall>p \<in> set pre. P p) \<and> \<not> P s"
proof (induction ss)
  case Nil
  then show ?case by simp
next
  case (Cons a ss)
  show ?case
  proof (cases "P a")
    case False
    then have "a # ss = [] @ a # ss \<and> (\<forall>p \<in> set []. P p) \<and> \<not> P a" by simp
    then show ?thesis by blast
  next
    case True
    with Cons.prems have "\<not> (\<forall>s \<in> set ss. P s)" by simp
    from Cons.IH [OF this] obtain pre s post where
      "ss = pre @ s # post" "\<forall>p \<in> set pre. P p" "\<not> P s" by blast
    with True have "a # ss = (a # pre) @ s # post \<and> (\<forall>p \<in> set (a # pre). P p) \<and> \<not> P s"
      by simp
    then show ?thesis by blast
  qed
qed


lemma execute_workflow_absent:
  "workflows db wid = None \<Longrightarrow> execute_workflow h wid db = db"
  by (simp add: execute_workflow_def)

lemma execute_workflow_present:
  assumes "workflows db wid = Some w"
  shows "\<exists>w'. workflows (execute_workflow h wid db) = (workflows db)(wid \<mapsto> w') \<and>
        total_runs w' = total_runs w + 1 \<and>
        ((successful_runs w' = successful_runs w + 1 \<and> failed_runs w' = failed_runs w) \<or>
         (successful_runs w' = successful_runs w \<and> failed_runs w' = failed_runs w + 1))"
  using assms run_steps_row [of h wid "w\<lparr>total_runs := total_runs w + 1\<rparr>" "steps w" db]
  by (auto simp: execute_workflow_def)

lemma execute_attempts_counters:
  assumes "workflows db wid = Some w"
  shows "\<exists>w'. workflows (execute_attempts hs wid db) wid = Some w' \<and>
        total_runs w' = total_runs w + int (length hs) \<and>
        successful_runs w' + failed_runs w' =
          successful_runs w + failed_runs w + int (length hs) \<and>
        successful_runs w \<le> successful_runs w' \<and> failed_runs w \<le> failed_runs w'"
  using assms
proof (induction hs arbitrary: db w)
  case Nil
  then show ?case by simp
next
  case (Cons h hs)
  from execute_workflow_present [OF Cons.prems, of h]
  obtain w1 where w1: "workflows (execute_workflow h wid db) wid = Some w1"
    and t: "total_runs w1 = total_runs w + 1"
    and c: "(successful_runs w1 = successful_runs w + 1 \<and> failed_runs w1 = failed_runs w) \<or>
         (successful_runs w1 = successful_runs w \<and> failed_runs w1 = failed_runs w + 1)"
    by auto
  from Cons.IH [OF w1] obtain w' where
    "workflows (execute_attempts hs wid (execute_workflow h wid db)) wid = Some w'"
    "total_runs w' = total_runs w1 + int (length hs)"
    "successful_runs w' + failed_runs w' = successful_runs w1 + failed_runs w1 + int (length hs)"
    "successful_runs w1 \<le> successful_runs w'" "failed_runs w1 \<le> failed_runs w'"
    by auto
  with t c show ?case by auto
qed

lemma execute_workflow_first_failure:
  assumes "workflows db wid = Some w" and "steps w = pre @ s # post"
    and "\<forall>p \<in> set pre. step_ok h p" and "\<not> step_ok h s"
  shows "execute_workflow h wid db =
     commit wid (w\<lparr>total_runs := total_runs w + 1, failed_runs := failed_runs w + 1\<rparr>)
       (db\<lparr>trace := trace db @ concat (map (step_events h) (pre @ [s]))\<rparr>)"
  using assms(1,2)
    run_steps_first_failure [OF assms(3,4), of wid "w\<lparr>total_runs := total_runs w + 1\<rparr>" post db]
  by (simp add: execute_workflow_def)

lemma execute_workflow_all_ok:
  assumes "workflows db wid = Some w" and "\<forall>s \<in> set (steps w). step_ok h s"
  shows "execute_workflow h wid db =
     commit wid (w\<lparr>total_runs := total_runs w + 1, successful_runs := successful_runs w + 1\<rparr>)
       (db\<lparr>trace := trace db @ concat (map (step_events h) (steps w))\<rparr>)"
  using assms(1)
    run_steps_all_ok [OF assms(2), of wid "w\<lparr>total_runs := total_runs w + 1\<rparr>" db]
  by (simp add: execute_workflow_def)

lemma step_ok_ai_analysis:
  "step_type sd = ''ai_analysis'' \<Longrightarrow> step_ok h sd = caught (ai_analysis_step h (config sd))"
  by (simp add: step_ok_def execute_step_def)

lemma unknown_step_not_ok:
  "step_type sd \<notin> set known_step_types \<Longrightarrow> \<not> step_ok h sd"
  by (simp add: step_ok_def execute_step_def known_step_types_def)

subsection \<open>Run counters\<close>

text \<open>
  C1. A call of \<open>execute_workflow\<close> with an absent workflow id changes nothing. With a
  present id the row's \<open>total_runs\<close> grows by exactly one and exactly one of
  \<open>successful_runs\<close> and \<open>failed_runs\<close> grows by exactly one, the other staying as it
  was; all other rows are untouched. Hence, from zeroed counters, after the attempts
  \<open>hs\<close> (one choice of handlers per attempt) \<open>total_runs\<close> is the number of attempts and
  so is \<open>successful_runs + failed_runs\<close>, and no counter is negative.
\<close>

theorem execute_workflow_run_counters:
  "(workflows db wid = None \<longrightarrow> execute_workflow h wid db = db) \<and>
   (\<forall>w. workflows db wid = Some w \<longrightarrow>
      (\<exists>w'. workflows (execute_workflow h wid db) = (workflows db)(wid \<mapsto> w') \<and>
            total_runs w' = total_runs w + 1 \<and>
            ((successful_runs w' = successful_runs w + 1 \<and> failed_runs w' = failed_runs w) \<or>
             (successful_runs w' = successful_runs w \<and> failed_runs w' = failed_runs w + 1)))) \<and>
   (\<forall>w. workflows db wid = Some w \<and> total_runs w = 0 \<and> successful_runs w = 0 \<and>
        failed_runs w = 0 \<longrightarrow>
      (\<exists>w'. workflows (execute_attempts hs wid db) wid = Some w' \<and>
            total_runs w' = int (length hs) \<and>
            successful_runs w' + failed_runs w' = int (length hs) \<and>
            0 \<le> successful_runs w' \<and> 0 \<le> failed_runs w'))"
proof (intro conjI allI impI)
  assume "workflows db wid = None"
  then show "execute_workflow h wid db = db" by (rule execute_workflow_absent)
next
  fix w assume "workflows db wid = Some w"
  then show "\<exists>w'. workflows (execute_workflow h wid db) = (workflows db)(wid \<mapsto> w') \<and>
            total_runs w' = total_runs w + 1 \<and>
            ((successful_runs w' = successful_runs w + 1 \<and> failed_runs w' = failed_runs w) \<or>
             (successful_runs w' = successful_runs w \<and> failed_runs w' = failed_runs w + 1))"
    by (rule execute_workflow_present)
next
  fix w
  assume a: "workflows db wid = Some w \<and> total_runs w = 0 \<and> successful_runs w = 0 \<and>
        failed_runs w = 0"
  then have "workflows db wid = Some w" by simp
  from execute_attempts_counters [OF this, of hs] a
  show "\<exists>w'. workflows (execute_attempts hs wid db) wid = Some w' \<and>
            total_runs w' = int (length hs) \<and>
            successful_runs w' + failed_runs w' = int (length hs) \<and>
            0 \<le> successful_runs w' \<and> 0 \<le> failed_runs w'"
    by auto
qed

theorem execute_workflow_run_counters_witness:
  "workflows (example_session example_steps) 2 = None \<and>
   execute_workflow service_handlers 2 (example_session example_steps) =
     example_session example_steps \<and>
   (\<exists>w'. workflows (execute_attempts [service_handlers, simulated_handlers, service_handlers] 1
            (example_session example_steps)) 1 = Some w' \<and>
         total_runs w' = 3 \<and> successful_runs w' + failed_runs w' = 3)"
  using execute_workflow_run_counters
      [of "example_session example_steps" 2 service_handlers "[]"]
    execute_workflow_run_counters
      [of "example_session example_steps" 1 service_handlers
          "[service_handlers, simulated_handlers, service_handlers]"]
  by (auto simp: example_session_def simp del: execute_attempts.simps)

subsection \<open>Stop on first failure\<close>

text \<open>
  C2. The steps are visited in stored order, and the first step whose \<open>_execute_step\<close>
  result is false (the handler returned false or raised) ends the run: when the steps
  are \<open>pre @ s # post\<close>, every step of \<open>pre\<close> succeeds and \<open>s\<close> does not, the run
  commits the row with \<open>total_runs\<close> and \<open>failed_runs\<close> incremented and
  \<open>successful_runs\<close> as it was, and the handler invocations of the run are those of
  \<open>pre @ [s]\<close>, in that order: none for a step of \<open>post\<close>. A step's events are the
  invocation of its handler when its type is known, and nothing otherwise. In
  particular, with steps [ai\_analysis, notification] and a failing ai\_analysis
  handler, only \<open>Invoked ai_analysis\<close> is logged and the row ends with
  \<open>failed_runs = 1\<close>.
\<close>

theorem stop_on_first_failure:
  "(workflows db wid = Some w \<and> steps w = pre @ s # post \<and>
      (\<forall>p \<in> set pre. step_ok h p) \<and> \<not> step_ok h s \<longrightarrow>
    execute_workflow h wid db =
      commit wid (w\<lparr>total_runs := total_runs w + 1, failed_runs := failed_runs w + 1\<rparr>)
        (db\<lparr>trace := trace db @ concat (map (step_events h) (pre @ [s]))\<rparr>)) \<and>
   step_events h sd =
     (if step_type sd \<in> set known_step_types then [Invoked (step_type sd)] else []) \<and>
   (\<not> caught (ai_analysis_step h c1) \<longrightarrow>
    execute_workflow h 1 (example_session (failing_first_steps c1 c2)) =
      \<lparr>workflows =
         [1 \<mapsto> \<lparr>name = ''w'', steps = failing_first_steps c1 c2, total_runs = 1,
                 successful_runs = 0, failed_runs = 1\<rparr>],
       trace =
         [Invoked ''ai_analysis'',
          Committed 1 \<lparr>name = ''w'', steps = failing_first_steps c1 c2, total_runs = 1,
                       successful_runs = 0, failed_runs = 1\<rparr>]\<rparr>)"
proof (intro conjI impI)
  assume "workflows db wid = Some w \<and> steps w = pre @ s # post \<and>
      (\<forall>p \<in> set pre. step_ok h p) \<and> \<not> step_ok h s"
  then show "execute_workflow h wid db =
      commit wid (w\<lparr>total_runs := total_runs w + 1, failed_runs := failed_runs w + 1\<rparr>)
        (db\<lparr>trace := trace db @ concat (map (step_events h) (pre @ [s]))\<rparr>)"
    by (simp add: execute_workflow_first_failure)
next
  show "step_events h sd =
     (if step_type sd \<in> set known_step_types then [Invoked (step_type sd)] else [])"
    by (rule step_events_known)
next
  let ?a = "\<lparr>step_id = ''s1'', step_type = ''ai_analysis'', config = c1, order = 1\<rparr>"
  let ?n = "\<lparr>step_id = ''s2'', step_type = ''notification'', config = c2, order = 2\<rparr>"
  let ?w = "\<lparr>name = ''w'', steps = failing_first_steps c1 c2, total_runs = 0,
             successful_runs = 0, failed_runs = 0\<rparr>"
  assume "\<not> caught (ai_analysis_step h c1)"
  then have bad: "\<not> step_ok h ?a"
    by (simp add: step_ok_ai_analysis)
  have row: "workflows (example_session (failing_first_steps c1 c2)) 1 = Some ?w"
    by (simp add: example_session_def)
  have split: "steps ?w = [] @ ?a # [?n]"
    by (simp add: failing_first_steps_def)
  have none: "\<forall>p \<in> set []. step_ok h p"
    by simp
  have "step_events h ?a = [Invoked ''ai_analysis'']"
    by (simp add: step_events_known known_step_types_def)
  with execute_workflow_first_failure [OF row split none bad]
  show "execute_workflow h 1 (example_session (failing_first_steps c1 c2)) =
      \<lparr>workflows =
         [1 \<mapsto> \<lparr>name = ''w'', steps = failing_first_steps c1 c2, total_runs = 1,
                 successful_runs = 0, failed_runs = 1\<rparr>],
       trace =
         [Invoked ''ai_analysis'',
          Committed 1 \<lparr>name = ''w'', steps = failing_first_steps c1 c2, total_runs = 1,
                       successful_runs = 0, failed_runs = 1\<rparr>]\<rparr>"
    by (simp add: commit_def example_session_def)
qed

theorem stop_on_first_failure_witness:
  "trace (execute_workflow service_handlers 1 (example_session (failing_first_steps [] []))) =
     [Invoked ''ai_analysis'',
      Committed 1 \<lparr>name = ''w'', steps = failing_first_steps [] [], total_runs = 1,
                   successful_runs = 0, failed_runs = 1\<rparr>] \<and>
   execute_workflow simulated_handlers 1 (example_session unknown_step_steps) =
     commit 1 \<lparr>name = ''w'', steps = unknown_step_steps, total_runs = 1,
                successful_runs = 0, failed_runs = 1\<rparr>
       \<lparr>workflows = workflows (example_session unknown_step_steps),
        trace = [Invoked ''text_extraction'']\<rparr>"
proof -
  let ?w = "\<lparr>name = ''w'', steps = unknown_step_steps, total_runs = 0,
             successful_runs = 0, failed_runs = 0\<rparr>"
  let ?pre = "[\<lparr>step_id = ''s1'', step_type = ''text_extraction'', config = [], order = 1\<rparr>]"
  let ?s = "\<lparr>step_id = ''s2'', step_type = ''translation'', config = [], order = 2\<rparr>"
  let ?post = "[\<lparr>step_id = ''s3'', step_type = ''notification'', config = [], order = 3\<rparr>]"
  have a: "\<not> caught (ai_analysis_step service_handlers [])"
    by (simp add: service_handlers_def execute_ai_analysis_step_def caught_def)
  have b: "workflows (example_session unknown_step_steps) 1 = Some ?w \<and>
      steps ?w = ?pre @ ?s # ?post \<and>
      (\<forall>p \<in> set ?pre. step_ok simulated_handlers p) \<and> \<not> step_ok simulated_handlers ?s"
    by (simp add: example_session_def unknown_step_steps_def step_ok_def execute_step_def
        simulated_handlers_def caught_def)
  have c: "concat (map (step_events simulated_handlers) (?pre @ [?s])) =
      [Invoked ''text_extraction'']"
    by (simp add: step_events_def execute_step_def)
  from a b c
    stop_on_first_failure [of "example_session (failing_first_steps [] [])" 1 ?w "[]" ?s "[]"
      service_handlers ?s "[]" "[]"]
    stop_on_first_failure [of "example_session unknown_step_steps" 1 ?w ?pre ?s ?post
      simulated_handlers ?s "[]" "[]"]
  show ?thesis
    by (simp add: example_session_def)
qed


subsection \<open>When the attempt is persisted\<close>

text \<open>
  C5, as the code has it. \<open>total_runs\<close> is incremented on the in-memory row whatever the
  steps do, but the increment is not persisted before the steps run. A run on an
  existing workflow executes the steps \<open>ran\<close>, logging handler invocations and no
  commit, and then commits exactly once, as its last action; that commit carries the
  incremented \<open>total_runs\<close>. The steps that ran are all the steps when every step
  succeeds (and the commit carries the incremented \<open>successful_runs\<close>), and otherwise
  the steps up to and including the first failing one (and the commit carries the
  incremented \<open>failed_runs\<close>).
\<close>

theorem total_runs_committed_once_after_steps:
  "workflows db wid = Some w \<Longrightarrow>
   \<exists>ran rest w'.
     steps w = ran @ rest \<and>
     trace (execute_workflow h wid db) =
       trace db @ concat (map (step_events h) ran) @ [Committed wid w'] \<and>
     filter is_commit (concat (map (step_events h) ran)) = [] \<and>
     total_runs w' = total_runs w + 1 \<and>
     workflows (execute_workflow h wid db) wid = Some w' \<and>
     ((\<forall>s \<in> set (steps w). step_ok h s) \<and> ran = steps w \<and> rest = [] \<and>
        w' = w\<lparr>total_runs := total_runs w + 1,
                successful_runs := successful_runs w + 1\<rparr> \<or>
      (\<exists>pre s. ran = pre @ [s] \<and> (\<forall>p \<in> set pre. step_ok h p) \<and> \<not> step_ok h s \<and>
        w' = w\<lparr>total_runs := total_runs w + 1, failed_runs := failed_runs w + 1\<rparr>))"
proof (cases "\<forall>s \<in> set (steps w). step_ok h s")
  case True
  assume row: "workflows db wid = Some w"
  let ?w' = "w\<lparr>total_runs := total_runs w + 1, successful_runs := successful_runs w + 1\<rparr>"
  have "steps w = steps w @ [] \<and>
     trace (execute_workflow h wid db) =
       trace db @ concat (map (step_events h) (steps w)) @ [Committed wid ?w'] \<and>
     filter is_commit (concat (map (step_events h) (steps w))) = [] \<and>
     total_runs ?w' = total_runs w + 1 \<and>
     workflows (execute_workflow h wid db) wid = Some ?w'"
    by (simp add: execute_workflow_all_ok [OF row True] commit_def
        concat_step_events_no_commit)
  with True show ?thesis
    apply (rule_tac x = "steps w" in exI)
    apply (rule_tac x = "[]" in exI)
    apply (rule_tac x = ?w' in exI)
    apply simp
    done
next
  case False
  assume row: "workflows db wid = Some w"
  from first_failure_split [OF False] obtain pre s post where
    split: "steps w = pre @ s # post" and ok: "\<forall>p \<in> set pre. step_ok h p"
    and bad: "\<not> step_ok h s"
    by blast
  let ?w' = "w\<lparr>total_runs := total_runs w + 1, failed_runs := failed_runs w + 1\<rparr>"
  have main: "steps w = (pre @ [s]) @ post \<and>
     trace (execute_workflow h wid db) =
       trace db @ concat (map (step_events h) (pre @ [s])) @ [Committed wid ?w'] \<and>
     filter is_commit (concat (map (step_events h) (pre @ [s]))) = [] \<and>
     total_runs ?w' = total_runs w + 1 \<and>
     workflows (execute_workflow h wid db) wid = Some ?w'"
    using split concat_step_events_no_commit [of h "pre @ [s]"]
    by (simp add: execute_workflow_first_failure [OF row split ok bad] commit_def)
  have which: "\<exists>pre' s'. pre @ [s] = pre' @ [s'] \<and> (\<forall>p \<in> set pre'. step_ok h p) \<and>
      \<not> step_ok h s' \<and> ?w' = ?w'"
    using ok bad by blast
  show ?thesis
    apply (rule exI [of _ "pre @ [s]"])
    apply (rule exI [of _ post])
    apply (rule exI [of _ ?w'])
    using main which apply blast
    done
qed

theorem total_runs_committed_once_after_steps_witness:
  "\<exists>ran rest w'.
     steps \<lparr>name = ''w'', steps = unknown_step_steps, total_runs = 0, successful_runs = 0,
            failed_runs = 0\<rparr> = ran @ rest \<and>
     trace (execute_workflow simulated_handlers 1 (example_session unknown_step_steps)) =
       trace (example_session unknown_step_steps) @
         concat (map (step_events simulated_handlers) ran) @ [Committed 1 w'] \<and>
     filter is_commit (concat (map (step_events simulated_handlers) ran)) = [] \<and>
     total_runs w' = 0 + 1 \<and>
     workflows (execute_workflow simulated_handlers 1 (example_session unknown_step_steps)) 1 =
       Some w' \<and>
     ((\<forall>s \<in> set unknown_step_steps. step_ok simulated_handlers s) \<and>
        ran = unknown_step_steps \<and> rest = [] \<and>
        w' = \<lparr>name = ''w'', steps = unknown_step_steps, total_runs = 0 + 1,
               successful_runs = 0 + 1, failed_runs = 0\<rparr> \<or>
      (\<exists>pre s. ran = pre @ [s] \<and> (\<forall>p \<in> set pre. step_ok simulated_handlers p) \<and>
        \<not> step_ok simulated_handlers s \<and>
        w' = \<lparr>name = ''w'', steps = unknown_step_steps, total_runs = 0 + 1,
               successful_runs = 0, failed_runs = 0 + 1\<rparr>))"
proof -
  have "workflows (example_session unknown_step_steps) 1 =
      Some \<lparr>name = ''w'', steps = unknown_step_steps, total_runs = 0, successful_runs = 0,
            failed_runs = 0\<rparr>"
    by (simp add: example_session_def)
  from total_runs_committed_once_after_steps [OF this, of simulated_handlers]
  show ?thesis by simp
qed

text \<open>
  The claim as stated (a commit of the incremented \<open>total_runs\<close> before the first
  handler is invoked) fails on the one-step workflow [categorization]: the first event
  of the run is the handler's invocation and the only commit follows it.
\<close>

theorem no_commit_before_first_handler:
  "trace (execute_workflow service_handlers 1 (example_session (single_step ''categorization''))) =
     [Invoked ''categorization'',
      Committed 1 \<lparr>name = ''w'', steps = single_step ''categorization'', total_runs = 1,
                   successful_runs = 0, failed_runs = 1\<rparr>]"
  by (simp add: execute_workflow_def example_session_def single_step_def execute_step_def
      service_handlers_def execute_categorization_step_def caught_def commit_def)

subsection \<open>The scenario [text\_extraction, notification]\<close>

text \<open>
  C6. With the handlers of the repository the run of [text\_extraction, notification]
  does not succeed: the text extraction handler raises \<open>NameError\<close> (the module never
  imports \<open>asyncio\<close>), \<open>_execute_step\<close> turns that into false, and the run ends with
  \<open>total_runs = 1\<close>, \<open>successful_runs = 0\<close>, \<open>failed_runs = 1\<close> without entering the
  notification handler.
\<close>

theorem text_extraction_then_notification_fails:
  "text_extraction_step service_handlers [] = Inl (NameError ''name 'asyncio' is not defined'') \<and>
   execute_workflow service_handlers 1 (example_session example_steps) =
     \<lparr>workflows =
        [1 \<mapsto> \<lparr>name = ''w'', steps = example_steps, total_runs = 1, successful_runs = 0,
                failed_runs = 1\<rparr>],
      trace =
        [Invoked ''text_extraction'',
         Committed 1 \<lparr>name = ''w'', steps = example_steps, total_runs = 1,
                      successful_runs = 0, failed_runs = 1\<rparr>]\<rparr>"
  by (simp add: execute_workflow_def example_session_def example_steps_def execute_step_def
      service_handlers_def execute_text_extraction_step_def caught_def commit_def)

subsection \<open>Handler errors and unknown step types\<close>

text \<open>
  C7. For each of the four handlers, an exception raised inside it makes
  \<open>_execute_step\<close> return false (the result is a boolean in every case, nothing
  propagates to the loop); a step type outside the four known ones gives false at once,
  with no handler entered; and a workflow with a step of unknown type at any position
  \<open>k\<close> ends its run with \<open>failed_runs\<close> incremented and \<open>successful_runs\<close> unchanged.
\<close>

theorem step_errors_become_failure:
  "(text_extraction_step h cfg = Inl e \<longrightarrow>
      execute_step h ''text_extraction'' cfg = (False, [Invoked ''text_extraction''])) \<and>
   (ai_analysis_step h cfg = Inl e \<longrightarrow>
      execute_step h ''ai_analysis'' cfg = (False, [Invoked ''ai_analysis''])) \<and>
   (categorization_step h cfg = Inl e \<longrightarrow>
      execute_step h ''categorization'' cfg = (False, [Invoked ''categorization''])) \<and>
   (notification_step h cfg = Inl e \<longrightarrow>
      execute_step h ''notification'' cfg = (False, [Invoked ''notification''])) \<and>
   (stype \<notin> set known_step_types \<longrightarrow> execute_step h stype cfg = (False, [])) \<and>
   (workflows db wid = Some w \<and> k < length (steps w) \<and>
      step_type (steps w ! k) \<notin> set known_step_types \<longrightarrow>
    (\<exists>w'. workflows (execute_workflow h wid db) = (workflows db)(wid \<mapsto> w') \<and>
          total_runs w' = total_runs w + 1 \<and>
          failed_runs w' = failed_runs w + 1 \<and>
          successful_runs w' = successful_runs w))"
proof (intro conjI impI)
  assume a: "workflows db wid = Some w \<and> k < length (steps w) \<and>
      step_type (steps w ! k) \<notin> set known_step_types"
  then have row: "workflows db wid = Some w" by simp
  from a have "steps w ! k \<in> set (steps w)" and "\<not> step_ok h (steps w ! k)"
    by (simp_all add: unknown_step_not_ok)
  then have "\<not> (\<forall>s \<in> set (steps w). step_ok h s)" by blast
  from first_failure_split [OF this] obtain pre s post where
    split: "steps w = pre @ s # post" and ok: "\<forall>p \<in> set pre. step_ok h p"
    and bad: "\<not> step_ok h s"
    by blast
  let ?w' = "w\<lparr>total_runs := total_runs w + 1, failed_runs := failed_runs w + 1\<rparr>"
  have "workflows (execute_workflow h wid db) = (workflows db)(wid \<mapsto> ?w') \<and>
          total_runs ?w' = total_runs w + 1 \<and>
          failed_runs ?w' = failed_runs w + 1 \<and>
          successful_runs ?w' = successful_runs w"
    by (simp add: execute_workflow_first_failure [OF row split ok bad] commit_def)
  then show "\<exists>w'. workflows (execute_workflow h wid db) = (workflows db)(wid \<mapsto> w') \<and>
          total_runs w' = total_runs w + 1 \<and>
          failed_runs w' = failed_runs w + 1 \<and>
          successful_runs w' = successful_runs w"
    by blast
qed (simp_all add: execute_step_def caught_def known_step_types_def)

theorem step_errors_become_failure_witness:
  "execute_step service_handlers ''notification'' [] = (False, [Invoked ''notification'']) \<and>
   execute_step simulated_handlers ''translation'' [] = (False, []) \<and>
   (\<exists>w'. workflows (execute_workflow simulated_handlers 1 (example_session unknown_step_steps)) =
           (workflows (example_session unknown_step_steps))(1 \<mapsto> w') \<and>
         total_runs w' = 0 + 1 \<and> failed_runs w' = 0 + 1 \<and> successful_runs w' = 0)"
proof -
  let ?w = "\<lparr>name = ''w'', steps = unknown_step_steps, total_runs = 0,
             successful_runs = 0, failed_runs = 0\<rparr>"
  have a: "notification_step service_handlers [] =
      Inl (NameError ''name 'asyncio' is not defined'')"
    by (simp add: service_handlers_def execute_notification_step_def)
  have b: "''translation'' \<notin> set known_step_types"
    by (simp add: known_step_types_def)
  have c: "workflows (example_session unknown_step_steps) 1 = Some ?w \<and>
      1 < length (steps ?w) \<and> step_type (steps ?w ! 1) \<notin> set known_step_types"
    by (simp add: example_session_def unknown_step_steps_def known_step_types_def)
  from a
    step_errors_become_failure [of service_handlers "[]"
      "NameError ''name 'asyncio' is not defined''" "''translation''"
      "example_session unknown_step_steps" 1 ?w 1]
  have 1: "execute_step service_handlers ''notification'' [] =
      (False, [Invoked ''notification''])"
    by blast
  from b c
    step_errors_become_failure [of simulated_handlers "[]" "NameError []" "''translation''"
      "example_session unknown_step_steps" 1 ?w 1]
  have 2: "execute_step simulated_handlers ''translation'' [] = (False, [])"
    and 3: "\<exists>w'. workflows (execute_workflow simulated_handlers 1
              (example_session unknown_step_steps)) =
           (workflows (example_session unknown_step_steps))(1 \<mapsto> w') \<and>
         total_runs w' = total_runs ?w + 1 \<and> failed_runs w' = failed_runs ?w + 1 \<and>
         successful_runs w' = successful_runs ?w"
    by blast+
  from 1 2 3 show ?thesis by simp
qed

section \<open>Properties of the job runner\<close>

subsection \<open>The handlers\<close>

lemma progress_loop_fst:
  "fst (progress_loop jid f ks job db) =
     (if ks = [] then job else job\<lparr>progress := f (last ks)\<rparr>)"
  by (induction ks arbitrary: job db) simp_all

lemma progress_loop_commits:
  "commits (snd (progress_loop jid f ks job db)) =
     commits db @ map (\<lambda>k. (jid, job\<lparr>progress := f k\<rparr>)) ks"
  by (induction ks arbitrary: job db) (simp_all add: job_commit_def)

lemma progress_loop_jobs:
  "jobs (snd (progress_loop jid f ks job db)) =
     (if ks = [] then jobs db else (jobs db)(jid \<mapsto> job\<lparr>progress := f (last ks)\<rparr>))"
  by (induction ks arbitrary: job db) (simp_all add: job_commit_def)

lemma text_extraction_values:
  "map (\<lambda>i. (of_nat ((i + 1) * 20) :: rat)) [0..<5] = [20, 40, 60, 80, 100]"
  by code_simp

lemma ai_analysis_values:
  "map (\<lambda>i. (of_nat ((i + 1) * 10) :: rat)) [0..<10] =
     [10, 20, 30, 40, 50, 60, 70, 80, 90, 100]"
  by code_simp

lemma categorization_values:
  "map (\<lambda>i. py_mul_int (binary64 (3333 / 100)) (int (i + 1))) [0..<3] =
     [2345390243441541 / 70368744177664, 2345390243441541 / 35184372088832,
      7036170730324623 / 70368744177664]"
  by code_simp

lemma workflow_values:
  "map (\<lambda>i. py_mul_int (binary64 (25 / 2)) (int (i + 1))) [0..<8] =
     [25 / 2, 25, 75 / 2, 50, 125 / 2, 75, 175 / 2, 100]"
  by code_simp

lemma dispatch_job_known:
  assumes "job_type job \<in> set known_job_types"
  shows "\<exists>f ks. dispatch_job i job db = Inr (progress_loop i f ks job db) \<and> ks \<noteq> [] \<and>
           sorted (map f ks) \<and> (\<forall>p \<in> set (map f ks). 0 \<le> p \<and> p \<le> 100)"
proof -
  consider "job_type job = ''text_extraction''" | "job_type job = ''ai_analysis''"
    | "job_type job = ''categorization''" | "job_type job = ''workflow''"
    using assms by (auto simp: known_job_types_def)
  then show ?thesis
  proof cases
    case 1
    then have "dispatch_job i job db =
        Inr (progress_loop i (\<lambda>i. of_nat ((i + 1) * 20)) [0..<5] job db)"
      by (simp add: dispatch_job_def process_text_extraction_def)
    moreover have "[0..<5] \<noteq> ([]::nat list)" by simp
    moreover have "sorted (map (\<lambda>i. (of_nat ((i + 1) * 20) :: rat)) [0..<5])"
      unfolding text_extraction_values by simp
    moreover have "\<forall>p \<in> set (map (\<lambda>i. (of_nat ((i + 1) * 20) :: rat)) [0..<5]). 0 \<le> p \<and> p \<le> 100"
      unfolding text_extraction_values by simp
    ultimately show ?thesis by blast
  next
    case 2
    then have "dispatch_job i job db =
        Inr (progress_loop i (\<lambda>i. of_nat ((i + 1) * 10)) [0..<10] job db)"
      by (simp add: dispatch_job_def process_ai_analysis_def)
    moreover have "[0..<10] \<noteq> ([]::nat list)" by simp
    moreover have "sorted (map (\<lambda>i. (of_nat ((i + 1) * 10) :: rat)) [0..<10])"
      unfolding ai_analysis_values by simp
    moreover have "\<forall>p \<in> set (map (\<lambda>i. (of_nat ((i + 1) * 10) :: rat)) [0..<10]). 0 \<le> p \<and> p \<le> 100"
      unfolding ai_analysis_values by simp
    ultimately show ?thesis by blast
  next
    case 3
    then have "dispatch_job i job db =
        Inr (progress_loop i (\<lambda>i. py_mul_int (binary64 (3333 / 100)) (int (i + 1))) [0..<3]
          job db)"
      by (simp add: dispatch_job_def process_categorization_def)
    moreover have "[0..<3] \<noteq> ([]::nat list)" by simp
    moreover have "sorted (map (\<lambda>i. py_mul_int (binary64 (3333 / 100)) (int (i + 1))) [0..<3])"
      unfolding categorization_values by simp
    moreover have "\<forall>p \<in> set (map (\<lambda>i. py_mul_int (binary64 (3333 / 100)) (int (i + 1))) [0..<3]).
        0 \<le> p \<and> p \<le> 100"
      unfolding categorization_values by simp
    ultimately show ?thesis by blast
  next
    case 4
    then have "dispatch_job i job db =
        Inr (progress_loop i (\<lambda>i. py_mul_int (binary64 (25 / 2)) (int (i + 1))) [0..<8]
          job db)"
      by (simp add: dispatch_job_def process_workflow_def)
    moreover have "[0..<8] \<noteq> ([]::nat list)" by simp
    moreover have "sorted (map (\<lambda>i. py_mul_int (binary64 (25 / 2)) (int (i + 1))) [0..<8])"
      unfolding workflow_values by simp
    moreover have "\<forall>p \<in> set (map (\<lambda>i. py_mul_int (binary64 (25 / 2)) (int (i + 1))) [0..<8]).
        0 \<le> p \<and> p \<le> 100"
      unfolding workflow_values by simp
    ultimately show ?thesis by blast
  qed
qed

lemma dispatch_job_unknown:
  "job_type job \<notin> set known_job_types \<Longrightarrow>
   dispatch_job i job db = Inl (ValueError (''Unknown job type: '' @ job_type job))"
  by (simp add: dispatch_job_def known_job_types_def)


subsection \<open>The runner on the configured store\<close>

lemma datetime_sub_naive_aware:
  "datetime_sub (Some (Naive a)) (map_option Aware (Some s)) =
     Inl (TypeError ''can't subtract offset-naive and offset-aware datetimes'')"
  by (simp add: datetime_sub_def)

lemma mark_failed_absent:
  "jobs db i = None \<Longrightarrow> mark_failed now i e db = Inr db"
  by (simp add: mark_failed_def)

lemma mark_failed_not_started:
  "jobs db i = Some j \<Longrightarrow> started_at j = None \<Longrightarrow>
   mark_failed now i e db =
     Inr (job_commit i
            (j\<lparr>status := FAILED, error_message := Some (str_exception e),
               completed_at := Some now\<rparr>) db)"
  by (simp add: mark_failed_def)

lemma mark_failed_started:
  "jobs db i = Some j \<Longrightarrow> started_at j = Some s \<Longrightarrow>
   mark_failed now i e db =
     Inl (TypeError ''can't subtract offset-naive and offset-aware datetimes'')"
  by (simp add: mark_failed_def datetime_sub_def)

lemma except_block_started:
  "jobs held i = Some j \<Longrightarrow> started_at j = Some s \<Longrightarrow>
   except_block now i e held persisted =
     (Some (TypeError ''can't subtract offset-naive and offset-aware datetimes''), persisted)"
  by (simp add: except_block_def mark_failed_started)

lemma process_job_async_absent:
  "jobs db i = None \<Longrightarrow> process_job_async t1 t2 t3 i db = (None, db)"
  by (simp add: process_job_async_def)

lemma process_job_async_raises:
  fixes t1 t2 t3 :: timestamp
  assumes row: "jobs db i = Some j"
  shows "\<exists>db' r. process_job_async t1 t2 t3 i db =
           (Some (TypeError ''can't subtract offset-naive and offset-aware datetimes''), db') \<and>
         jobs db' i = Some r \<and> status r = RUNNING \<and> started_at r = Some t1 \<and>
         completed_at r = completed_at j \<and> duration_seconds r = duration_seconds j"
proof -
  define run0 where "run0 = j\<lparr>status := RUNNING, started_at := Some t1, progress := 0\<rparr>"
  let ?db1 = "job_commit i run0 db"
  have r1: "jobs ?db1 i = Some run0" and s1: "started_at run0 = Some t1"
    by (simp_all add: job_commit_def run0_def)
  show ?thesis
  proof (cases "job_type j \<in> set known_job_types")
    case False
    then have "job_type run0 \<notin> set known_job_types"
      by (simp add: run0_def)
    then have d: "dispatch_job i run0 ?db1 =
        Inl (ValueError (''Unknown job type: '' @ job_type run0))"
      by (rule dispatch_job_unknown)
    have "process_job_async t1 t2 t3 i db =
        except_block t3 i (ValueError (''Unknown job type: '' @ job_type run0)) ?db1 ?db1"
      using row d by (simp add: process_job_async_def Let_def run0_def [symmetric])
    then have "process_job_async t1 t2 t3 i db =
        (Some (TypeError ''can't subtract offset-naive and offset-aware datetimes''), ?db1)"
      by (simp add: except_block_started [OF r1 s1])
    moreover have "status run0 = RUNNING \<and> started_at run0 = Some t1 \<and>
        completed_at run0 = completed_at j \<and> duration_seconds run0 = duration_seconds j"
      by (simp add: run0_def)
    ultimately show ?thesis using r1 by blast
  next
    case True
    then have "job_type run0 \<in> set known_job_types"
      by (simp add: run0_def)
    from dispatch_job_known [OF this, of i ?db1] obtain f ks where
      d: "dispatch_job i run0 ?db1 = Inr (progress_loop i f ks run0 ?db1)"
      and ne: "ks \<noteq> []"
      by blast
    obtain job2 db2 where pl: "progress_loop i f ks run0 ?db1 = (job2, db2)"
      by (cases "progress_loop i f ks run0 ?db1")
    have job2: "job2 = run0\<lparr>progress := f (last ks)\<rparr>"
      using progress_loop_fst [of i f ks run0 ?db1] pl ne by simp
    have j2: "jobs db2 i = Some (run0\<lparr>progress := f (last ks)\<rparr>)"
      using progress_loop_jobs [of i f ks run0 ?db1] pl ne by (simp add: job_commit_def)
    let ?job3 = "job2\<lparr>status := COMPLETED, progress := 100, completed_at := Some t2\<rparr>"
    let ?held = "db2\<lparr>jobs := (jobs db2)(i \<mapsto> ?job3)\<rparr>"
    have h: "jobs ?held i = Some ?job3" and s3: "started_at ?job3 = Some t1"
      by (simp_all add: job2 run0_def)
    have "process_job_async t1 t2 t3 i db =
        except_block t3 i (TypeError ''can't subtract offset-naive and offset-aware datetimes'')
          ?held db2"
      using row d pl s3
      by (simp add: process_job_async_def Let_def run0_def [symmetric] datetime_sub_def)
    then have "process_job_async t1 t2 t3 i db =
        (Some (TypeError ''can't subtract offset-naive and offset-aware datetimes''), db2)"
      by (simp only: except_block_started [OF h s3])
    moreover have "status (run0\<lparr>progress := f (last ks)\<rparr>) = RUNNING \<and>
        started_at (run0\<lparr>progress := f (last ks)\<rparr>) = Some t1 \<and>
        completed_at (run0\<lparr>progress := f (last ks)\<rparr>) = completed_at j \<and>
        duration_seconds (run0\<lparr>progress := f (last ks)\<rparr>) = duration_seconds j"
      by (simp add: run0_def)
    ultimately show ?thesis using j2 by blast
  qed
qed

subsection \<open>Cancel requests\<close>

lemma cancel_job_absent: "jobs db i = None \<Longrightarrow> cancel_job now i db = (False, db)"
  by (simp add: cancel_job_def)

lemma cancel_job_terminal:
  "jobs db i = Some j \<Longrightarrow> status j = COMPLETED \<or> status j = FAILED \<Longrightarrow>
   cancel_job now i db = (False, db)"
  by (auto simp: cancel_job_def)

lemma cancel_job_active:
  "jobs db i = Some j \<Longrightarrow> status j = PENDING \<or> status j = RUNNING \<Longrightarrow>
   cancel_job now i db =
     (True,
      job_commit i
        (j\<lparr>status := FAILED, error_message := Some ''Job cancelled by user'',
           completed_at := Some now\<rparr>) db)"
  by (auto simp: cancel_job_def)

subsection \<open>Progress\<close>

text \<open>
  C3. The persisted states of a text\_extraction job, from \<open>create_job\<close> through the
  one scheduled run of \<open>_process_job_async\<close>: pending at 0, running at 0, then running
  at 20, 40, 60, 80 and 100. The run does not store the completed state: after the
  handler, \<open>job.completed_at - job.started_at\<close> subtracts a timezone-aware datetime
  from a naive one and raises \<open>TypeError\<close>, the \<open>except\<close> block raises the same error,
  and nothing more is committed. The progress is non-decreasing and within [0, 100],
  but it ends at exactly 100 with the status still running, not completed.
\<close>

theorem completed_state_never_persisted:
  "fst (job_life 1 ''3f2c'' 1000 ''text_extraction'' (Some 7) [] 2000 9000 9500 []
          empty_job_db) =
     Some (TypeError ''can't subtract offset-naive and offset-aware datetimes'') \<and>
   map (\<lambda>j. (status j, progress j))
     (history 1
        (snd (job_life 1 ''3f2c'' 1000 ''text_extraction'' (Some 7) [] 2000 9000 9500 []
                empty_job_db))) =
     [(PENDING, 0), (RUNNING, 0), (RUNNING, 20), (RUNNING, 40), (RUNNING, 60),
      (RUNNING, 80), (RUNNING, 100)] \<and>
   map_option (\<lambda>j. (status j, progress j))
     (jobs
        (snd (job_life 1 ''3f2c'' 1000 ''text_extraction'' (Some 7) [] 2000 9000 9500 []
                empty_job_db)) 1) =
     Some (RUNNING, 100)"
  by (simp add: job_life_def create_job_def empty_job_db_def process_job_async_def Let_def
      dispatch_job_def process_text_extraction_def upt_rec job_commit_def datetime_sub_def
      except_block_def mark_failed_def history_def)

subsection \<open>Cancellation\<close>

text \<open>
  C4, as the code has it. \<open>cancel_job\<close> returns false and leaves the session as it is
  when the job is absent or its status is completed or failed; when the status is
  pending or running it commits the row with status failed, the error message
  "Job cancelled by user" and \<open>completed_at\<close> set to now, every other column as it was,
  and returns true.
\<close>

theorem cancel_job_effect:
  "(jobs db i = None \<longrightarrow> cancel_job now i db = (False, db)) \<and>
   (jobs db i = Some j \<and> (status j = COMPLETED \<or> status j = FAILED) \<longrightarrow>
      cancel_job now i db = (False, db)) \<and>
   (jobs db i = Some j \<and> (status j = PENDING \<or> status j = RUNNING) \<longrightarrow>
      cancel_job now i db =
        (True,
         job_commit i
           (j\<lparr>status := FAILED, error_message := Some ''Job cancelled by user'',
              completed_at := Some now\<rparr>) db))"
  by (auto simp: cancel_job_absent cancel_job_terminal cancel_job_active)

theorem cancel_job_effect_witness:
  "cancel_job 5000 2 (example_job_db PENDING) = (False, example_job_db PENDING) \<and>
   cancel_job 5000 1 (example_job_db COMPLETED) = (False, example_job_db COMPLETED) \<and>
   cancel_job 5000 1 (example_job_db RUNNING) =
     (True,
      job_commit 1
        ((example_job RUNNING)\<lparr>status := FAILED,
           error_message := Some ''Job cancelled by user'', completed_at := Some 5000\<rparr>)
        (example_job_db RUNNING))"
  using cancel_job_effect [of "example_job_db PENDING" 2 5000 "example_job PENDING"]
    cancel_job_effect [of "example_job_db COMPLETED" 1 5000 "example_job COMPLETED"]
    cancel_job_effect [of "example_job_db RUNNING" 1 5000 "example_job RUNNING"]
  by (simp add: example_job_db_def example_job_def)

text \<open>
  The claim as stated has the error message "cancelled"; on a pending job the message
  written is another string.
\<close>

theorem cancel_job_message_differs:
  "fst (cancel_job 5000 1 (example_job_db PENDING)) = True \<and>
   map_option error_message (jobs (snd (cancel_job 5000 1 (example_job_db PENDING))) 1) =
     Some (Some ''Job cancelled by user'') \<and>
   ''Job cancelled by user'' \<noteq> ''cancelled''"
  by (simp add: cancel_job_def example_job_db_def example_job_def job_commit_def)

subsection \<open>Duration\<close>


section \<open>Properties of the system status\<close>

lemma count_status_total:
  "count_status PENDING rows + count_status RUNNING rows + count_status COMPLETED rows +
     count_status FAILED rows = length rows"
proof (induction rows)
  case Nil
  show ?case by (simp add: count_status_def)
next
  case (Cons j rows)
  then show ?case
    by (cases "status j") (simp_all add: count_status_def)
qed

lemma count_status_le: "count_status s rows \<le> length rows"
  by (simp add: count_status_def)

lemma py_round2_zero: "py_round2 0 = 0"
  by (simp add: py_round2_def round_half_even_def binary64_def)

lemma system_health_iff:
  assumes "length rows < 2 ^ 48"
  shows "system_health (get_system_status now rows) =
     (if 10 * count_status FAILED rows < length rows then ''healthy'' else ''degraded'')"
  using tenth_product_threshold [OF count_status_le assms, of FAILED]
  by (simp add: get_system_status_def Let_def)

lemma success_rate_one_of_three_values:
  "py_round2 (2345624805922133 / 70368744177664) = 2345390243441541 / 70368744177664"
  "py_mul_int (py_truediv 1 3) 100 = 2345624805922133 / 70368744177664"
  by code_simp+

text \<open>
  C10, as the code has it. \<open>get_system_status\<close> returns the number of rows and the
  number of rows of each status (the four add up to the total); the success rate is
  \<open>round(completed_jobs / total_jobs * 100, 2)\<close>, the percentage rounded to two decimal
  places, and 0 when there are no jobs; and for a table of fewer than \<open>2^48\<close> rows the
  health is "healthy" exactly when \<open>failed_jobs\<close> is less than 10 percent of
  \<open>total_jobs\<close> (that is, \<open>10 * failed_jobs < total_jobs\<close>: the float product
  \<open>total_jobs * 0.1\<close> never moves the threshold) and "degraded" otherwise. The empty
  table is "degraded".
\<close>

theorem system_status_counts_rate_health:
  "total_jobs (get_system_status now rows) = length rows \<and>
   pending_jobs (get_system_status now rows) = count_status PENDING rows \<and>
   running_jobs (get_system_status now rows) = count_status RUNNING rows \<and>
   completed_jobs (get_system_status now rows) = count_status COMPLETED rows \<and>
   failed_jobs (get_system_status now rows) = count_status FAILED rows \<and>
   count_status PENDING rows + count_status RUNNING rows + count_status COMPLETED rows +
     count_status FAILED rows = length rows \<and>
   success_rate (get_system_status now rows) =
     (if rows = [] then 0
      else py_round2
             (py_mul_int
                (py_truediv (int (count_status COMPLETED rows)) (int (length rows))) 100)) \<and>
   (length rows < 2 ^ 48 \<longrightarrow>
      system_health (get_system_status now rows) =
        (if 10 * count_status FAILED rows < length rows then ''healthy'' else ''degraded'')) \<and>
   system_health (get_system_status now []) = ''degraded''"
proof (intro conjI impI)
  show "count_status PENDING rows + count_status RUNNING rows + count_status COMPLETED rows +
     count_status FAILED rows = length rows"
    by (rule count_status_total)
next
  assume "length rows < 2 ^ 48"
  then show "system_health (get_system_status now rows) =
        (if 10 * count_status FAILED rows < length rows then ''healthy'' else ''degraded'')"
    by (rule system_health_iff)
next
  show "system_health (get_system_status now []) = ''degraded''"
    by (simp add: system_health_iff count_status_def)
next
  show "success_rate (get_system_status now rows) =
     (if rows = [] then 0
      else py_round2
             (py_mul_int
                (py_truediv (int (count_status COMPLETED rows)) (int (length rows))) 100))"
    by (simp add: get_system_status_def Let_def py_round2_zero)
qed (simp_all add: get_system_status_def Let_def)

theorem system_status_counts_rate_health_witness:
  "system_health (get_system_status 0 (example_rows 9)) = ''degraded'' \<and>
   system_health (get_system_status 0 (example_rows 10)) = ''healthy'' \<and>
   failed_jobs (get_system_status 0 (example_rows 10)) = 1 \<and>
   total_jobs (get_system_status 0 (example_rows 10)) = 11"
proof -
  have a: "length (example_rows 9) < 2 ^ 48" and b: "length (example_rows 10) < 2 ^ 48"
    by (simp_all add: example_rows_def)
  have c: "count_status FAILED (example_rows 9) = 1" "length (example_rows 9) = 10"
    "count_status FAILED (example_rows 10) = 1" "length (example_rows 10) = 11"
    by (simp_all add: example_rows_def count_status_def example_job_def)
  from a b c system_status_counts_rate_health [of 0 "example_rows 9"]
    system_status_counts_rate_health [of 0 "example_rows 10"]
  show ?thesis by simp
qed

text \<open>
  The claim as stated has the success rate equal to \<open>completed_jobs / total_jobs * 100\<close>.
  With one completed job of three the value returned is the float 33.33, which is
  neither that float product nor the exact quotient.
\<close>

theorem success_rate_is_rounded:
  "success_rate (get_system_status 0 one_of_three) = 2345390243441541 / 70368744177664 \<and>
   py_mul_int (py_truediv 1 3) 100 = 2345624805922133 / 70368744177664 \<and>
   (2345390243441541 / 70368744177664 :: rat) \<noteq> 2345624805922133 / 70368744177664 \<and>
   (2345390243441541 / 70368744177664 :: rat) \<noteq> 1 / 3 * 100"
  by (simp add: get_system_status_def Let_def one_of_three_def count_status_def
      example_job_def success_rate_one_of_three_values)

section \<open>Properties of the batch task\<close>

subsection \<open>The loop\<close>

lemma outcome_cong:
  "map_option file_path (docs' d) = map_option file_path (docs d) \<Longrightarrow>
   outcome fs docs' d = outcome fs docs d"
  by (cases "docs d"; cases "docs' d") (auto simp: outcome_def)

lemma batch_loop_invariant:
  "results (batch_loop fs n i ids st) =
     results st @ map (outcome fs (documents st)) ids \<and>
   events (batch_loop fs n i ids st) =
     events st @ concat (map (item_events fs (documents st) n) (enumerate i ids)) \<and>
   (\<forall>d. map_option file_path (documents (batch_loop fs n i ids st) d) =
        map_option file_path (documents st d))"
proof (induction ids arbitrary: i st)
  case Nil
  show ?case by simp
next
  case (Cons doc_id rest)
  let ?u = "UpdateState \<lparr>reported_progress = batch_progress i n, position = i + 1,
                      of_total = n, current_document = doc_id\<rparr>"
  let ?st1 = "st\<lparr>events := events st @ [?u]\<rparr>"
  let ?e = "outcome fs (documents st) doc_id"
  obtain st2 where
    step: "batch_loop fs n i (doc_id # rest) st = batch_loop fs n (i + 1) rest st2"
    and r2: "results st2 = results st @ [?e]"
    and e2: "events st2 = events st @ [?u, ResultAppended ?e]"
    and d2: "\<forall>d. map_option file_path (documents st2 d) = map_option file_path (documents st d)"
  proof (cases "documents st doc_id")
    case None
    let ?st2 = "append_result ?e ?st1"
    have "batch_loop fs n i (doc_id # rest) st = batch_loop fs n (i + 1) rest ?st2"
      using None by (simp add: outcome_def)
    moreover have "results ?st2 = results st @ [?e]"
      and "events ?st2 = events st @ [?u, ResultAppended ?e]"
      and "\<forall>d. map_option file_path (documents ?st2 d) = map_option file_path (documents st d)"
      by (simp_all add: append_result_def)
    ultimately show ?thesis by (rule that)
  next
    case (Some doc)
    show ?thesis
    proof (cases "extract_text fs (file_path doc)")
      case (Inr body)
      let ?st2 = "append_result ?e
          (?st1\<lparr>documents := (documents ?st1)(doc_id \<mapsto>
              doc\<lparr>extracted_text := Some body, doc_status := ''completed'',
                  processing_progress := 100\<rparr>)\<rparr>)"
      have "batch_loop fs n i (doc_id # rest) st = batch_loop fs n (i + 1) rest ?st2"
        using Some Inr by (simp add: outcome_def)
      moreover have "results ?st2 = results st @ [?e]"
        and "events ?st2 = events st @ [?u, ResultAppended ?e]"
        and "\<forall>d. map_option file_path (documents ?st2 d) = map_option file_path (documents st d)"
        using Some by (simp_all add: append_result_def)
      ultimately show ?thesis by (rule that)
    next
      case (Inl e)
      let ?st2 = "append_result ?e
          (?st1\<lparr>documents := (documents ?st1)(doc_id \<mapsto>
              doc\<lparr>doc_status := ''failed'',
                  doc_error_message := Some (str_exception e)\<rparr>)\<rparr>)"
      have "batch_loop fs n i (doc_id # rest) st = batch_loop fs n (i + 1) rest ?st2"
        using Some Inl by (simp add: outcome_def)
      moreover have "results ?st2 = results st @ [?e]"
        and "events ?st2 = events st @ [?u, ResultAppended ?e]"
        and "\<forall>d. map_option file_path (documents ?st2 d) = map_option file_path (documents st d)"
        using Some by (simp_all add: append_result_def)
      ultimately show ?thesis by (rule that)
    qed
  qed
  have same: "outcome fs (documents st2) = outcome fs (documents st)"
    using d2 by (intro ext outcome_cong) simp
  have ev: "item_events fs (documents st2) n = item_events fs (documents st) n"
    by (intro ext) (simp add: item_events_def same)
  from Cons.IH [of "i + 1" st2] show ?case
    unfolding step by (simp add: r2 e2 d2 same ev item_events_def)
qed


lemma batch_progress_of_three:
  "batch_progress 0 (Suc (Suc (Suc 0))) = 0"
  "batch_progress (Suc 0) (Suc (Suc (Suc 0))) = 33"
  "batch_progress (Suc (Suc 0)) (Suc (Suc (Suc 0))) = 66"
  by code_simp+

lemma third_times_hundred:
  "py_mul_int (py_truediv 1 3) 100 = 2345624805922133 / 70368744177664"
  by code_simp

lemma outcome_status:
  "entry_document_id (outcome fs docs d) = d \<and>
   entry_status (outcome fs docs d) =
     (case docs d of
        None \<Rightarrow> ''not_found''
      | Some doc \<Rightarrow> (case fs (file_path doc) of None \<Rightarrow> ''failed'' | Some t \<Rightarrow> ''completed''))"
  by (simp add: outcome_def extract_text_def split: option.splits)

lemma process_document_batch_result:
  "process_document_batch fs ids docs = (ret, st) \<Longrightarrow>
   total_documents ret = length ids \<and> returned_status ret = ''completed'' \<and>
   returned_results ret = map (outcome fs docs) ids \<and>
   results st = returned_results ret \<and>
   events st = concat (map (item_events fs docs (length ids)) (enumerate 0 ids))"
  using batch_loop_invariant [of fs "length ids" 0 ids
      "\<lparr>documents = docs, results = [], events = []\<rparr>"]
  by (auto simp: process_document_batch_def Let_def)

subsection \<open>One outcome per document\<close>

text \<open>
  C9, as the code has it. \<open>process_document_batch\<close> visits the ids in order and never
  stops early: it returns the number of ids and one entry per id, in the order of the
  ids, whatever happens to the others. The events of the run are, for each index \<open>i\<close>
  and id \<open>d\<close> in turn, the progress report and then the entry appended for \<open>d\<close>; the
  progress reported is \<open>int((i / total) * 100)\<close>, the float product truncated to an
  integer. The entry is marked not\_found when the document is absent, failed when
  its file is missing, and completed otherwise. For [1, 2, 3] where 2 is absent and 1
  and 3 are stored with existing files, there are three entries, marked completed,
  not\_found, completed, and the progress values reported are 0, 33, 66.
\<close>

theorem batch_one_outcome_per_document:
  "(process_document_batch fs ids docs = (ret, st) \<longrightarrow>
      total_documents ret = length ids \<and>
      returned_results ret = map (outcome fs docs) ids \<and>
      map entry_document_id (returned_results ret) = ids \<and>
      events st = concat (map (item_events fs docs (length ids)) (enumerate 0 ids))) \<and>
   item_events fs docs n (i, d) =
     [UpdateState \<lparr>reported_progress = py_int (py_mul_int (py_truediv (int i) (int n)) 100),
                   position = i + 1, of_total = n, current_document = d\<rparr>,
      ResultAppended (outcome fs docs d)] \<and>
   entry_status (outcome fs docs d) =
     (case docs d of
        None \<Rightarrow> ''not_found''
      | Some doc \<Rightarrow> (case fs (file_path doc) of None \<Rightarrow> ''failed'' | Some t \<Rightarrow> ''completed'')) \<and>
   (docs 1 = Some d1 \<and> fs (file_path d1) = Some x1 \<and> docs 2 = None \<and>
    docs 3 = Some d3 \<and> fs (file_path d3) = Some x3 \<longrightarrow>
      length (returned_results (fst (process_document_batch fs [1, 2, 3] docs))) = 3 \<and>
      map entry_status (returned_results (fst (process_document_batch fs [1, 2, 3] docs))) =
        [''completed'', ''not_found'', ''completed''] \<and>
      progress_reports (events (snd (process_document_batch fs [1, 2, 3] docs))) =
        [0, 33, 66])"
proof (intro conjI impI)
  assume r: "process_document_batch fs ids docs = (ret, st)"
  from process_document_batch_result [OF r]
  show "total_documents ret = length ids"
    and "returned_results ret = map (outcome fs docs) ids"
    and "events st = concat (map (item_events fs docs (length ids)) (enumerate 0 ids))"
    by simp_all
  from process_document_batch_result [OF r]
  show "map entry_document_id (returned_results ret) = ids"
    by (simp add: comp_def outcome_status map_idI)
next
  show "item_events fs docs n (i, d) =
     [UpdateState \<lparr>reported_progress = py_int (py_mul_int (py_truediv (int i) (int n)) 100),
                   position = i + 1, of_total = n, current_document = d\<rparr>,
      ResultAppended (outcome fs docs d)]"
    by (simp add: item_events_def batch_progress_def)
next
  show "entry_status (outcome fs docs d) =
     (case docs d of
        None \<Rightarrow> ''not_found''
      | Some doc \<Rightarrow> (case fs (file_path doc) of None \<Rightarrow> ''failed'' | Some t \<Rightarrow> ''completed''))"
    by (simp add: outcome_status)
next
  assume a: "docs 1 = Some d1 \<and> fs (file_path d1) = Some x1 \<and> docs 2 = None \<and>
    docs 3 = Some d3 \<and> fs (file_path d3) = Some x3"
  obtain ret st where r: "process_document_batch fs [1, 2, 3] docs = (ret, st)"
    by (cases "process_document_batch fs [1, 2, 3] docs")
  have en: "enumerate 0 [1, 2, 3 :: int] = [(0, 1), (1, 2), (2, 3)]"
    by (simp add: enumerate_eq_zip upt_rec)
  from process_document_batch_result [OF r] a
  have res: "map entry_status (returned_results ret) = [''completed'', ''not_found'', ''completed'']"
    and len: "length (returned_results ret) = 3"
    and evs: "progress_reports (events st) = [0, 33, 66]"
    by (simp_all add: outcome_status en item_events_def batch_progress_of_three)
  from r res len evs
  show "length (returned_results (fst (process_document_batch fs [1, 2, 3] docs))) = 3"
    and "map entry_status (returned_results (fst (process_document_batch fs [1, 2, 3] docs))) =
        [''completed'', ''not_found'', ''completed'']"
    and "progress_reports (events (snd (process_document_batch fs [1, 2, 3] docs))) =
        [0, 33, 66]"
    by simp_all
qed

theorem batch_one_outcome_per_document_witness:
  "length (returned_results (fst (process_document_batch example_files [1, 2, 3]
      example_documents))) = 3 \<and>
   map entry_status (returned_results (fst (process_document_batch example_files [1, 2, 3]
      example_documents))) = [''completed'', ''not_found'', ''completed''] \<and>
   progress_reports (events (snd (process_document_batch example_files [1, 2, 3]
      example_documents))) = [0, 33, 66] \<and>
   entry_status (outcome Map.empty example_documents 3) = ''failed''"
proof -
  have a: "example_documents 1 = Some (example_document ''uploads/a.txt'') \<and>
      example_files (file_path (example_document ''uploads/a.txt'')) = Some ''alpha'' \<and>
      example_documents 2 = None \<and>
      example_documents 3 = Some (example_document ''uploads/c.pdf'') \<and>
      example_files (file_path (example_document ''uploads/c.pdf'')) = Some ''gamma delta''"
    by (simp add: example_documents_def example_files_def example_document_def)
  have b: "example_documents 3 = Some (example_document ''uploads/c.pdf'')"
    by (simp add: example_documents_def)
  from a
    batch_one_outcome_per_document [of example_files "[]" example_documents _ _ 0 0 0
      "example_document ''uploads/a.txt''" "''alpha''" "example_document ''uploads/c.pdf''"
      "''gamma delta''"]
  have 1: "length (returned_results (fst (process_document_batch example_files [1, 2, 3]
        example_documents))) = 3 \<and>
      map entry_status (returned_results (fst (process_document_batch example_files [1, 2, 3]
        example_documents))) = [''completed'', ''not_found'', ''completed''] \<and>
      progress_reports (events (snd (process_document_batch example_files [1, 2, 3]
        example_documents))) = [0, 33, 66]"
    by blast
  from b
    batch_one_outcome_per_document [of Map.empty "[]" example_documents _ _ 0 0 3]
  have 2: "entry_status (outcome Map.empty example_documents 3) = ''failed''"
    by simp
  from 1 2 show ?thesis by simp
qed

text \<open>
  The claim as stated has the reported progress equal to \<open>(index / total) * 100\<close>. For
  [1, 2, 3] the value reported before the second item is the integer 33, which is
  neither the float product nor the exact quotient.
\<close>

theorem batch_progress_is_truncated:
  "progress_reports (events (snd (process_document_batch example_files [1, 2, 3]
      example_documents))) = [0, 33, 66] \<and>
   py_mul_int (py_truediv 1 3) 100 = 2345624805922133 / 70368744177664 \<and>
   (33 :: rat) \<noteq> 2345624805922133 / 70368744177664 \<and> (33 :: rat) \<noteq> 1 / 3 * 100"
proof -
  have en: "enumerate 0 [1, 2, 3 :: int] = [(0, 1), (1, 2), (2, 3)]"
    by (simp add: enumerate_eq_zip upt_rec)
  obtain ret st where r: "process_document_batch example_files [1, 2, 3] example_documents = (ret, st)"
    by (cases "process_document_batch example_files [1, 2, 3] example_documents")
  from process_document_batch_result [OF r]
  have "progress_reports (events st) = [0, 33, 66]"
    by (simp add: en item_events_def batch_progress_of_three)
  with r show ?thesis
    by (simp add: third_times_hundred)
qed

end
